theory Spec2Isabelle
  imports Main "HOL-Library.Sublist"
begin

section \<open>The Go standard library as html_simple uses it\<close>

text \<open>
  A Go \<^verbatim>\<open>string\<close> is a sequence of bytes, here a \<^typ>\<open>string\<close> (a list of 8-bit
  \<^typ>\<open>char\<close>). The package calls five library functions: \<^verbatim>\<open>html.EscapeString\<close>,
  \<^verbatim>\<open>strings.Fields\<close>, \<^verbatim>\<open>strings.Join\<close>, \<^verbatim>\<open>strings.HasPrefix\<close> (the list
  predicate \<^const>\<open>prefix\<close>) and \<^verbatim>\<open>url.Parse\<close> with \<^verbatim>\<open>URL.String\<close>.
\<close>

abbreviation DQ :: char where "DQ \<equiv> CHR 0x22"
abbreviation SQ :: char where "SQ \<equiv> CHR 0x27"

subsection \<open>html.EscapeString\<close>

text \<open>
  Modelled from the spec: \<^verbatim>\<open>html.EscapeString\<close> belongs to Go's standard library and is not
  part of the repository. Section 4.1 of the specification describes it: every occurrence of
  the five bytes \<^verbatim>\<open>& ' < > "\<close> is replaced by its character entity and every other byte
  passes through. The entities are those of the Go library (\<^verbatim>\<open>&amp; &#39; &lt; &gt; &#34;\<close>).
\<close>

definition escapeByte :: "char \<Rightarrow> string" where
  "escapeByte c =
     (if c = CHR ''&'' then ''&amp;''
      else if c = SQ then ''&#39;''
      else if c = CHR ''<'' then ''&lt;''
      else if c = CHR ''>'' then ''&gt;''
      else if c = DQ then ''&#34;''
      else [c])"

definition EscapeString :: "string \<Rightarrow> string" where
  "EscapeString s = concat (map escapeByte s)"

text \<open>The five bytes the escaper replaces, and the five entities it writes.\<close>

definition special :: "char list" where
  "special = [CHR ''&'', CHR ''<'', CHR ''>'', DQ, SQ]"

definition entities :: "string list" where
  "entities = [''&amp;'', ''&#39;'', ''&lt;'', ''&gt;'', ''&#34;'']"

subsection \<open>strings.Fields and strings.Join\<close>

text \<open>
  \<^verbatim>\<open>strings.Fields\<close> splits around runs of white space as \<^verbatim>\<open>unicode.IsSpace\<close> defines it:
  the six ASCII bytes tab, line feed, vertical tab, form feed, carriage return and space, and
  the code points U+0085, U+00A0, U+1680, U+2000 to U+200A, U+2028, U+2029, U+202F, U+205F
  and U+3000, which occur in a byte string as their UTF-8 encodings. \<open>spaceWidth s\<close> is the
  number of bytes of the white-space rune at the head of \<open>s\<close>, and 0 when there is none.
\<close>

definition asciiSpace :: "char list" where
  "asciiSpace = [CHR 0x09, CHR 0x0A, CHR 0x0B, CHR 0x0C, CHR 0x0D, CHR 0x20]"

fun spaceWidth :: "string \<Rightarrow> nat" where
  "spaceWidth [] = 0"
| "spaceWidth (c # cs) =
     (if c \<in> set asciiSpace then 1
      else if c = CHR 0xC2 then
        (case cs of
           d # _ \<Rightarrow> if d = CHR 0x85 \<or> d = CHR 0xA0 then 2 else 0
         | [] \<Rightarrow> 0)
      else if c = CHR 0xE1 then
        (if take 2 cs = [CHR 0x9A, CHR 0x80] then 3 else 0)
      else if c = CHR 0xE2 then
        (case cs of
           d1 # d2 # _ \<Rightarrow>
             if d1 = CHR 0x80 \<and>
                d2 \<in> set [CHR 0x80, CHR 0x81, CHR 0x82, CHR 0x83, CHR 0x84, CHR 0x85,
                          CHR 0x86, CHR 0x87, CHR 0x88, CHR 0x89, CHR 0x8A,
                          CHR 0xA8, CHR 0xA9, CHR 0xAF]
             then 3
             else if d1 = CHR 0x81 \<and> d2 = CHR 0x9F then 3
             else 0
         | _ \<Rightarrow> 0)
      else if c = CHR 0xE3 then
        (if take 2 cs = [CHR 0x80, CHR 0x80] then 3 else 0)
      else 0)"

definition flush :: "string \<Rightarrow> string list" where
  "flush cur = (if cur = [] then [] else [cur])"

text \<open>
  The scan: \<open>skip\<close> counts the bytes of a multi-byte white-space rune still to pass, \<open>cur\<close>
  is the field being read.
\<close>

fun fieldsFrom :: "nat \<Rightarrow> string \<Rightarrow> string \<Rightarrow> string list" where
  "fieldsFrom skip cur [] = flush cur"
| "fieldsFrom (Suc skip) cur (c # cs) = fieldsFrom skip cur cs"
| "fieldsFrom 0 cur (c # cs) =
     (case spaceWidth (c # cs) of
        0 \<Rightarrow> fieldsFrom 0 (cur @ [c]) cs
      | Suc w \<Rightarrow> flush cur @ fieldsFrom w [] cs)"

definition strings_Fields :: "string \<Rightarrow> string list" where
  "strings_Fields s = fieldsFrom 0 [] s"

fun strings_Join :: "string list \<Rightarrow> string \<Rightarrow> string" where
  "strings_Join [] sep = []"
| "strings_Join [x] sep = x"
| "strings_Join (x # y # ys) sep = x @ sep @ strings_Join (y # ys) sep"

subsection \<open>net/url\<close>

text \<open>
  \<^verbatim>\<open>url.Parse\<close> and \<^verbatim>\<open>URL.String\<close> are parameters of the model: the package reads the
  fields \<^verbatim>\<open>Scheme\<close> and \<^verbatim>\<open>Path\<close> of the parsed URL and calls \<^verbatim>\<open>String\<close> on it, nothing
  more. The further fields of \<^verbatim>\<open>url.URL\<close> live in the extension of the record.
  \<open>url_Parse\<close> returns \<open>None\<close> where Go returns an error.
\<close>

record URL =
  Scheme :: string
  Opaque :: string
  Host :: string
  Path :: string
  RawQuery :: string
  Fragment :: string

record 'a net_url =
  url_Parse :: "string \<Rightarrow> 'a URL_scheme option"
  url_String :: "'a URL_scheme \<Rightarrow> string"

text \<open>
  For closed examples the parameter is instantiated with a finite sample of the library:
  four inputs with the URL that \<^verbatim>\<open>url.Parse\<close> returns for each (two of them are the
  \<^verbatim>\<open>href\<close> values of the repository's example program), every other input rejected as
  \<^verbatim>\<open>url.Parse\<close> rejects \<^verbatim>\<open>:bad\<close>, and the serialisation of a URL without user
  information or escaping.
\<close>

definition sample_Parse :: "string \<Rightarrow> URL option" where
  "sample_Parse s =
     (if s = ''javascript:alert(1)'' then
        Some \<lparr>Scheme = ''javascript'', Opaque = ''alert(1)'', Host = [], Path = [],
              RawQuery = [], Fragment = []\<rparr>
      else if s = ''https://example.com?param=value&another=test'' then
        Some \<lparr>Scheme = ''https'', Opaque = [], Host = ''example.com'', Path = [],
              RawQuery = ''param=value&another=test'', Fragment = []\<rparr>
      else if s = ''/a/b'' then
        Some \<lparr>Scheme = [], Opaque = [], Host = [], Path = ''/a/b'',
              RawQuery = [], Fragment = []\<rparr>
      else if s = ''foo/bar'' then
        Some \<lparr>Scheme = [], Opaque = [], Host = [], Path = ''foo/bar'',
              RawQuery = [], Fragment = []\<rparr>
      else None)"

definition sample_String :: "URL \<Rightarrow> string" where
  "sample_String u =
     (if Scheme u = [] then [] else Scheme u @ '':'') @
     (if Opaque u \<noteq> [] then Opaque u
      else (if Host u = [] then [] else ''//'' @ Host u) @ Path u) @
     (if RawQuery u = [] then [] else ''?'' @ RawQuery u) @
     (if Fragment u = [] then [] else ''#'' @ Fragment u)"

definition sample_url :: "unit net_url" where
  "sample_url = \<lparr>url_Parse = sample_Parse, url_String = sample_String\<rparr>"

section \<open>The data model\<close>

text \<open>
  A tag is a \<^verbatim>\<open>NormalTag\<close> or a \<^verbatim>\<open>VoidTag\<close>, both strings; the type assertion
  \<^verbatim>\<open>e.Tag.(VoidTag)\<close> of the serialiser is \<open>isVoid\<close>.
\<close>

datatype Tag = NormalTag string | VoidTag string

fun name :: "Tag \<Rightarrow> string" where
  "name (NormalTag t) = t"
| "name (VoidTag t) = t"

fun isVoid :: "Tag \<Rightarrow> bool" where
  "isVoid (NormalTag t) = False"
| "isVoid (VoidTag t) = True"

text \<open>
  The policy table stores function values. \<^verbatim>\<open>New\<close> stores two of them, the library's
  \<^verbatim>\<open>html.EscapeString\<close> and its own closure \<^verbatim>\<open>urlSanitizeFunc\<close>; the only other writer of
  the table, \<^verbatim>\<open>_allowAttribute\<close>, is unexported and never called. A stored function is
  therefore one of two tags, applied by \<open>applySanitize\<close> below, and the \<^verbatim>\<open>nil\<close> function
  that \<^verbatim>\<open>setAttribute\<close> tests for is \<open>None\<close>.
\<close>

datatype sanitizeFunc = FnEscapeString | FnUrlSanitize

record attributeConfig =
  allowed :: bool
  sanitizeFunc :: "sanitizeFunc option"

record Attribute =
  Name :: string

record KeyValue =
  Key :: string
  Value :: string

type_synonym Attributes = "string \<rightharpoonup> string list"

text \<open>
  An element owns its children; the model is the tree of values. The back-references
  \<^verbatim>\<open>Parent\<close> and \<^verbatim>\<open>generator\<close> are read by no operation but \<^verbatim>\<open>setAttribute\<close>, which
  reads the generator's policy table: the operations below take the generator as an argument.
\<close>

datatype Element =
  Element (Tag: Tag) (Attributes: Attributes) (Children: "Element list") (Content: string)

record Generator =
  Root :: Element
  allowedAttributes :: "string \<rightharpoonup> attributeConfig"

section \<open>The generator's policy table\<close>

definition defaultAllowed :: "string list" where
  "defaultAllowed =
    [''accept'', ''accept-charset'', ''accesskey'', ''allow'', ''alt'', ''as'', ''async'',
     ''autocapitalize'', ''autocomplete'', ''autoplay'', ''background'', ''bgcolor'', ''border'',
     ''capture'', ''charset'', ''checked'', ''cite'', ''class'', ''color'', ''cols'', ''colspan'',
     ''content'', ''contenteditable'', ''controls'', ''coords'', ''crossorigin'', ''data'', ''data-*'',
     ''datetime'', ''decoding'', ''default'', ''defer'', ''dir'', ''dirname'', ''disabled'', ''download'',
     ''draggable'', ''enctype'', ''enterkeyhint'', ''for'', ''form'', ''formenctype'',
     ''formmethod'', ''formnovalidate'', ''formtarget'', ''headers'', ''height'', ''hidden'', ''high'',
     ''hreflang'', ''http-equiv'', ''id'', ''integrity'', ''inputmode'', ''ismap'', ''itemprop'',
     ''kind'', ''label'', ''lang'', ''loading'', ''list'', ''loop'', ''low'', ''max'', ''maxlength'',
     ''minlength'', ''media'', ''method'', ''min'', ''multiple'', ''muted'', ''name'', ''novalidate'',
     ''open'', ''optimum'', ''pattern'', ''placeholder'', ''playsinline'',
     ''preload'', ''readonly'', ''referrerpolicy'', ''rel'', ''required'', ''reversed'', ''role'',
     ''rows'', ''rowspan'', ''sandbox'', ''scope'', ''selected'', ''shape'', ''size'', ''sizes'',
     ''slot'', ''span'', ''spellcheck'', ''srcdoc'', ''srclang'', ''start'', ''step'',
     ''style'', ''tabindex'', ''target'', ''title'', ''translate'', ''type'', ''usemap'', ''value'',
     ''width'', ''wrap'']"

definition defaultAllowedHtmx :: "string list" where
  "defaultAllowedHtmx = [''hx-get'', ''hx-post'', ''hx-put'', ''hx-patch'', ''hx-delete'']"

definition defaultAllowedUrl :: "string list" where
  "defaultAllowedUrl =
     [''href'', ''src'', ''action'', ''formaction'', ''srcset'', ''ping'', ''poster'']
     @ defaultAllowedHtmx"

text \<open>
  The closure \<^verbatim>\<open>urlSanitizeFunc\<close> of \<^verbatim>\<open>New\<close>, with its three early returns in order.
\<close>

definition urlSanitizeFunc :: "'a net_url \<Rightarrow> string \<Rightarrow> string" where
  "urlSanitizeFunc lib s =
     (case url_Parse lib s of
        None \<Rightarrow> ''#''
      | Some u \<Rightarrow>
          if Scheme u = ''javascript'' then ''#''
          else if Scheme u = [] \<and> \<not> prefix ''/'' (Path u) then ''#''
          else EscapeString (url_String lib u))"

fun applySanitize :: "'a net_url \<Rightarrow> sanitizeFunc \<Rightarrow> string \<Rightarrow> string" where
  "applySanitize lib FnEscapeString s = EscapeString s"
| "applySanitize lib FnUrlSanitize s = urlSanitizeFunc lib s"

text \<open>
  The argument of \<^verbatim>\<open>New\<close> is a slice: \<open>None\<close> is the \<^verbatim>\<open>nil\<close> slice, \<open>Some []\<close> an
  empty slice that is not \<^verbatim>\<open>nil\<close>. A \<^verbatim>\<open>range\<close> over either runs no iteration.
\<close>

definition sliceItems :: "'a list option \<Rightarrow> 'a list" where
  "sliceItems sl = (case sl of None \<Rightarrow> [] | Some xs \<Rightarrow> xs)"

text \<open>The body of the first loop of \<^verbatim>\<open>New\<close>, over \<^verbatim>\<open>defaultAllowed\<close>.\<close>

definition registerDefault ::
  "Attribute list option \<Rightarrow> string \<Rightarrow> (string \<rightharpoonup> attributeConfig) \<Rightarrow> (string \<rightharpoonup> attributeConfig)"
where
  "registerDefault allowedAttributesCustom attr t =
     (if allowedAttributesCustom \<noteq> None \<and> t attr \<noteq> None then t
      else t(attr \<mapsto> \<lparr>allowed = True, sanitizeFunc = Some FnEscapeString\<rparr>))"

text \<open>The inner loop over the custom attributes, which stands inside the second loop.\<close>

definition registerCustom ::
  "Attribute list option \<Rightarrow> (string \<rightharpoonup> attributeConfig) \<Rightarrow> (string \<rightharpoonup> attributeConfig)"
where
  "registerCustom allowedAttributesCustom t =
     fold (\<lambda>attribute t'. t'(Name attribute \<mapsto> \<lparr>allowed = True, sanitizeFunc = Some FnEscapeString\<rparr>))
       (sliceItems allowedAttributesCustom) t"

text \<open>
  The body of the second loop, over \<^verbatim>\<open>defaultAllowedUrl\<close>. The assignment of the URL
  sanitiser stands inside the test \<^verbatim>\<open>allowedAttributesCustom != nil\<close>, and \<^verbatim>\<open>continue\<close>
  leaves the iteration before the inner loop.
\<close>

definition registerUrl ::
  "Attribute list option \<Rightarrow> string \<Rightarrow> (string \<rightharpoonup> attributeConfig) \<Rightarrow> (string \<rightharpoonup> attributeConfig)"
where
  "registerUrl allowedAttributesCustom attr t =
     (if allowedAttributesCustom \<noteq> None then
        (if t attr \<noteq> None then t
         else registerCustom allowedAttributesCustom
                (t(attr \<mapsto> \<lparr>allowed = True, sanitizeFunc = Some FnUrlSanitize\<rparr>)))
      else registerCustom allowedAttributesCustom t)"

definition New :: "Attribute list option \<Rightarrow> Generator" where
  "New allowedAttributesCustom =
     \<lparr>Root = Element (NormalTag []) Map.empty [] [],
      allowedAttributes =
        fold (registerUrl allowedAttributesCustom) defaultAllowedUrl
          (fold (registerDefault allowedAttributesCustom) defaultAllowed Map.empty)\<rparr>"

section \<open>The element tree\<close>

text \<open>
  \<^verbatim>\<open>Add\<close> and \<^verbatim>\<open>AddVoid\<close> append a new child and return it: the model returns the
  parent as updated and the child.
\<close>

definition Add :: "Element \<Rightarrow> string \<Rightarrow> Element \<times> Element" where
  "Add e tag =
     (let child = Element (NormalTag tag) Map.empty [] []
      in (Element (Tag e) (Attributes e) (Children e @ [child]) (Content e), child))"

definition AddVoid :: "Element \<Rightarrow> string \<Rightarrow> Element \<times> Element" where
  "AddVoid e tag =
     (let child = Element (VoidTag tag) Map.empty [] []
      in (Element (Tag e) (Attributes e) (Children e @ [child]) (Content e), child))"

text \<open>
  The read \<^verbatim>\<open>config, exists := allowedAttributes[key]\<close> yields the zero configuration
  for a missing key, and \<^verbatim>\<open>e.Attributes[key]\<close> the \<^verbatim>\<open>nil\<close> slice.
\<close>

definition lookupConfig :: "Generator \<Rightarrow> string \<Rightarrow> attributeConfig \<times> bool" where
  "lookupConfig g key =
     (case allowedAttributes g key of
        None \<Rightarrow> (\<lparr>allowed = False, sanitizeFunc = None\<rparr>, False)
      | Some config \<Rightarrow> (config, True))"

definition fragments :: "Element \<Rightarrow> string \<Rightarrow> string list" where
  "fragments e key = (case Attributes e key of None \<Rightarrow> [] | Some v \<Rightarrow> v)"

definition store :: "Element \<Rightarrow> string \<Rightarrow> string list \<Rightarrow> Element" where
  "store e key v = Element (Tag e) ((Attributes e)(key \<mapsto> v)) (Children e) (Content e)"

text \<open>The value \<^verbatim>\<open>sanitizedValue\<close> that \<^verbatim>\<open>setAttribute\<close> computes for an allowed key.\<close>

definition sanitizeWith :: "'a net_url \<Rightarrow> attributeConfig \<Rightarrow> string \<Rightarrow> string" where
  "sanitizeWith lib config val =
     (case sanitizeFunc config of
        Some f \<Rightarrow> applySanitize lib f val
      | None \<Rightarrow> EscapeString val)"

definition setAttribute :: "'a net_url \<Rightarrow> Generator \<Rightarrow> Element \<Rightarrow> string \<Rightarrow> string \<Rightarrow> Element" where
  "setAttribute lib g e key val =
     (let (config, exists) = lookupConfig g key in
      if exists \<and> allowed config then
        (let sanitizedValue = sanitizeWith lib config val
         in if key = ''class'' then store e key (fragments e key @ strings_Fields sanitizedValue)
            else if key = ''style'' then store e key (fragments e key @ [sanitizedValue])
            else store e key [sanitizedValue])
      else if prefix ''js-'' key then store e key [EscapeString val]
      else if prefix ''data-'' key then store e key [EscapeString val]
      else store e (''data-'' @ key) [EscapeString val])"

definition Attr :: "'a net_url \<Rightarrow> Generator \<Rightarrow> Element \<Rightarrow> string \<Rightarrow> string \<Rightarrow> Element" where
  "Attr lib g e key val = setAttribute lib g e key val"

definition WithAttrs :: "'a net_url \<Rightarrow> Generator \<Rightarrow> Element \<Rightarrow> KeyValue list \<Rightarrow> Element" where
  "WithAttrs lib g e attrs = fold (\<lambda>attr e'. setAttribute lib g e' (Key attr) (Value attr)) attrs e"

definition AddString :: "Element \<Rightarrow> string \<Rightarrow> Element" where
  "AddString e content =
     Element (Tag e) (Attributes e) (Children e) (Content e @ EscapeString content)"

section \<open>Serialisation\<close>

text \<open>
  Go visits the entries of a map in an order it does not fix: \<open>rangeOver m kvs\<close> says that
  \<open>kvs\<close> is one order in which \<^verbatim>\<open>for k, v := range m\<close> may visit the entries of \<open>m\<close>,
  each once.
\<close>

definition rangeOver :: "Attributes \<Rightarrow> (string \<times> string list) list \<Rightarrow> bool" where
  "rangeOver m kvs = (distinct (map fst kvs) \<and> set kvs = Map.graph m)"

text \<open>What the loop body writes for one entry; both branches of its switch join with a space.\<close>

definition writeAttribute :: "string \<times> string list \<Rightarrow> string" where
  "writeAttribute kv =
     (case kv of (k, v) \<Rightarrow>
        '' '' @ k @ ''=\"'' @
        (if k = ''class'' then strings_Join v '' '' else strings_Join v '' '') @ ''\"'')"

text \<open>
  \<open>generateHtml e out\<close>: one run of \<^verbatim>\<open>e.generateHtml(builder)\<close> appends \<open>out\<close> to the
  builder; \<open>generateChildren\<close> is the loop over \<^verbatim>\<open>e.Children\<close>.
\<close>

inductive generateHtml :: "Element \<Rightarrow> string \<Rightarrow> bool"
  and generateChildren :: "Element list \<Rightarrow> string \<Rightarrow> bool"
where
  gen_root:
    "name (Tag e) = [] \<Longrightarrow> generateChildren (Children e) cs \<Longrightarrow> generateHtml e cs"
| gen_void:
    "name (Tag e) \<noteq> [] \<Longrightarrow> isVoid (Tag e) \<Longrightarrow> rangeOver (Attributes e) kvs \<Longrightarrow>
     generateHtml e (''<'' @ name (Tag e) @ concat (map writeAttribute kvs) @ '' />'')"
| gen_normal:
    "name (Tag e) \<noteq> [] \<Longrightarrow> \<not> isVoid (Tag e) \<Longrightarrow> rangeOver (Attributes e) kvs \<Longrightarrow>
     generateChildren (Children e) cs \<Longrightarrow>
     generateHtml e
       (''<'' @ name (Tag e) @ concat (map writeAttribute kvs) @ ''>'' @ Content e @ cs @
        ''</'' @ name (Tag e) @ ''>'')"
| gen_nil:
    "generateChildren [] []"
| gen_cons:
    "generateHtml c s \<Longrightarrow> generateChildren cs t \<Longrightarrow> generateChildren (c # cs) (s @ t)"

definition Generate :: "Generator \<Rightarrow> string \<Rightarrow> bool" where
  "Generate g out = generateHtml (Root g) out"

section \<open>Predicates of the properties\<close>

text \<open>The two configurations that \<^verbatim>\<open>New\<close> writes into the table.\<close>

abbreviation escapeOnly :: attributeConfig where
  "escapeOnly \<equiv> \<lparr>allowed = True, sanitizeFunc = Some FnEscapeString\<rparr>"
abbreviation urlChecked :: attributeConfig where
  "urlChecked \<equiv> \<lparr>allowed = True, sanitizeFunc = Some FnUrlSanitize\<rparr>"

text \<open>Every custom name has its escape-only entry: the state of the table after the inner loop.\<close>

definition customsIn :: "Attribute list \<Rightarrow> (string \<rightharpoonup> attributeConfig) \<Rightarrow> bool" where
  "customsIn cs t = (\<forall>x \<in> Name ` set cs. t x = Some escapeOnly)"

text \<open>
  A fragment that cannot leave a double-quoted attribute value or open a tag, and an
  attribute map that stores such fragments only.
\<close>

definition safeFragment :: "string \<Rightarrow> bool" where
  "safeFragment f = (DQ \<notin> set f \<and> CHR ''<'' \<notin> set f)"

definition safeAttributes :: "Attributes \<Rightarrow> bool" where
  "safeAttributes m = (\<forall>fs \<in> ran m. \<forall>f \<in> set fs. safeFragment f)"

text \<open>
  Go maps are finite. A tree whose attribute maps are all finite is one the program can build;
  for such a tree the serialiser has an output.
\<close>

fun finiteAttributes :: "Element \<Rightarrow> bool" where
  "finiteAttributes (Element tag attrs children content) =
     (finite (dom attrs) \<and> (\<forall>c \<in> set children. finiteAttributes c))"

section \<open>Lemmas on the library functions\<close>

lemma escapeByte_chars: "set (escapeByte c) \<inter> {CHR ''<'', CHR ''>'', DQ, SQ} = {}"
  by (simp add: escapeByte_def)

lemma EscapeString_chars: "set (EscapeString s) \<inter> {CHR ''<'', CHR ''>'', DQ, SQ} = {}"
  by (induction s) (use escapeByte_chars in \<open>auto simp: EscapeString_def\<close>)

lemma EscapeString_append: "EscapeString (s @ t) = EscapeString s @ EscapeString t"
  by (simp add: EscapeString_def)

lemma escapeByte_piece:
  "escapeByte c \<in> set entities \<and> c \<in> set special \<or> escapeByte c = [c] \<and> c \<notin> set special"
  by (simp add: escapeByte_def entities_def special_def)

lemma strings_Fields_example:
  "strings_Fields ('' a  b'' @ [CHR 0xC2, CHR 0xA0] @ ''c'' @ [CHR 0xE2, CHR 0x80, CHR 0x83, CHR 0x09] @ ''d'')
     = [''a'', ''b'', ''c'', ''d'']"
  by (simp add: strings_Fields_def flush_def asciiSpace_def numeral_2_eq_2 numeral_3_eq_3)

lemma fieldsFrom_bytes:
  "f \<in> set (fieldsFrom n cur s) \<Longrightarrow> set f \<subseteq> set cur \<union> set s"
proof (induction n cur s arbitrary: f rule: fieldsFrom.induct)
  case (1 skip cur)
  then show ?case by (auto simp: flush_def split: if_splits)
next
  case (2 skip cur c cs)
  then show ?case by auto
next
  case (3 cur c cs)
  show ?case
  proof (cases "spaceWidth (c # cs)")
    case 0
    with 3 show ?thesis by fastforce
  next
    case (Suc w)
    with 3 show ?thesis by (fastforce simp: flush_def split: if_splits)
  qed
qed

lemma strings_Fields_bytes: "f \<in> set (strings_Fields s) \<Longrightarrow> set f \<subseteq> set s"
  using fieldsFrom_bytes[of f 0 "[]" s] by (simp add: strings_Fields_def)

lemma strings_Join_bytes: "set (strings_Join xs sep) \<subseteq> \<Union>(set ` set xs) \<union> set sep"
  by (induction xs sep rule: strings_Join.induct) auto

section \<open>Lemmas on the policy table\<close>

lemma fold_upd_apply:
  "fold (\<lambda>a t'. t'(f a \<mapsto> c)) xs t x = (if x \<in> f ` set xs then Some c else t x)"
  by (induction xs arbitrary: t) auto

lemma registerCustom_apply:
  "registerCustom cs t x = (if x \<in> Name ` set (sliceItems cs) then Some escapeOnly else t x)"
  unfolding registerCustom_def by (rule fold_upd_apply)

lemma fold_registerDefault_apply:
  "fold (registerDefault c) ds t x =
     (if x \<in> set ds
      then (case t x of None \<Rightarrow> Some escapeOnly
            | Some v \<Rightarrow> if c \<noteq> None then Some v else Some escapeOnly)
      else t x)"
  by (induction ds arbitrary: t) (auto simp: registerDefault_def split: option.splits)

lemma fold_registerDefault_empty:
  "fold (registerDefault c) ds Map.empty x = (if x \<in> set ds then Some escapeOnly else None)"
  by (simp add: fold_registerDefault_apply)

lemma fold_registerUrl_nil: "fold (registerUrl None) us t = t"
  by (induction us) (simp_all add: registerUrl_def registerCustom_def sliceItems_def)

lemma registerUrl_customsIn:
  assumes "customsIn cs t"
  shows "registerUrl (Some cs) u t = (if t u \<noteq> None then t else t(u \<mapsto> urlChecked))"
proof (cases "t u")
  case None
  have "registerCustom (Some cs) (t(u \<mapsto> urlChecked)) = t(u \<mapsto> urlChecked)"
  proof
    fix x
    show "registerCustom (Some cs) (t(u \<mapsto> urlChecked)) x = (t(u \<mapsto> urlChecked)) x"
      using assms None by (auto simp: registerCustom_apply sliceItems_def customsIn_def)
  qed
  with None show ?thesis by (simp add: registerUrl_def)
next
  case (Some a)
  then show ?thesis by (simp add: registerUrl_def)
qed

lemma fold_registerUrl_customsIn:
  "customsIn cs t \<Longrightarrow>
   fold (registerUrl (Some cs)) us t x =
     (case t x of Some v \<Rightarrow> Some v | None \<Rightarrow> if x \<in> set us then Some urlChecked else None)"
proof (induction us arbitrary: t)
  case Nil
  then show ?case by (simp split: option.splits)
next
  case (Cons u us)
  show ?case
  proof (cases "t u")
    case None
    let ?t = "t(u \<mapsto> urlChecked)"
    have eq: "registerUrl (Some cs) u t = ?t"
      using registerUrl_customsIn[OF Cons.prems, of u] None by simp
    have inv: "customsIn cs ?t"
      using Cons.prems None by (auto simp: customsIn_def)
    have "fold (registerUrl (Some cs)) (u # us) t x = fold (registerUrl (Some cs)) us ?t x"
      by (simp add: eq)
    also have "\<dots> = (case ?t x of Some v \<Rightarrow> Some v
                      | None \<Rightarrow> if x \<in> set us then Some urlChecked else None)"
      by (rule Cons.IH[OF inv])
    also have "\<dots> = (case t x of Some v \<Rightarrow> Some v
                      | None \<Rightarrow> if x \<in> set (u # us) then Some urlChecked else None)"
      using None by (cases "x = u") (simp_all split: option.splits)
    finally show ?thesis .
  next
    case (Some a)
    have eq: "registerUrl (Some cs) u t = t"
      using registerUrl_customsIn[OF Cons.prems, of u] Some by simp
    have "fold (registerUrl (Some cs)) (u # us) t x = fold (registerUrl (Some cs)) us t x"
      by (simp add: eq)
    also have "\<dots> = (case t x of Some v \<Rightarrow> Some v
                      | None \<Rightarrow> if x \<in> set us then Some urlChecked else None)"
      by (rule Cons.IH[OF Cons.prems])
    also have "\<dots> = (case t x of Some v \<Rightarrow> Some v
                      | None \<Rightarrow> if x \<in> set (u # us) then Some urlChecked else None)"
      using Some by (cases "x = u") (simp_all split: option.splits)
    finally show ?thesis .
  qed
qed

lemma fold_registerUrl_first:
  assumes "t u = None"
  shows "fold (registerUrl (Some cs)) (u # us) t x =
     (if x \<in> Name ` set cs then Some escapeOnly
      else if x = u then Some urlChecked
      else case t x of Some v \<Rightarrow> Some v | None \<Rightarrow> if x \<in> set us then Some urlChecked else None)"
proof -
  let ?t = "registerCustom (Some cs) (t(u \<mapsto> urlChecked))"
  have step: "registerUrl (Some cs) u t = ?t"
    using assms by (simp add: registerUrl_def)
  have "customsIn cs ?t"
    by (simp add: customsIn_def registerCustom_apply sliceItems_def)
  from fold_registerUrl_customsIn[OF this, of us x] show ?thesis
    by (simp add: step registerCustom_apply sliceItems_def)
qed

lemma href_not_default: "''href'' \<notin> set defaultAllowed"
  by (simp add: defaultAllowed_def)

lemma url_not_default: "x \<in> set defaultAllowedUrl \<Longrightarrow> x \<notin> set defaultAllowed"
  by (auto simp: defaultAllowedUrl_def defaultAllowedHtmx_def defaultAllowed_def)

lemma New_nil_table:
  "allowedAttributes (New None) x = (if x \<in> set defaultAllowed then Some escapeOnly else None)"
  by (simp add: New_def fold_registerUrl_nil fold_registerDefault_empty)

lemma New_table:
  "allowedAttributes (New (Some cs)) x =
     (if x \<in> Name ` set cs \<or> x \<in> set defaultAllowed then Some escapeOnly
      else if x \<in> set defaultAllowedUrl then Some urlChecked
      else None)"
proof -
  have us: "defaultAllowedUrl = ''href'' # tl defaultAllowedUrl"
    by (simp add: defaultAllowedUrl_def)
  have t0: "fold (registerDefault (Some cs)) defaultAllowed Map.empty ''href'' = None"
    using href_not_default by (simp add: fold_registerDefault_empty)
  have "allowedAttributes (New (Some cs)) x =
          fold (registerUrl (Some cs)) (''href'' # tl defaultAllowedUrl)
            (fold (registerDefault (Some cs)) defaultAllowed Map.empty) x"
    using us by (simp add: New_def)
  also have "\<dots> = (if x \<in> Name ` set cs then Some escapeOnly
      else if x = ''href'' then Some urlChecked
      else case fold (registerDefault (Some cs)) defaultAllowed Map.empty x of Some v \<Rightarrow> Some v
           | None \<Rightarrow> if x \<in> set (tl defaultAllowedUrl) then Some urlChecked else None)"
    using t0 by (rule fold_registerUrl_first)
  also have "\<dots> = (if x \<in> Name ` set cs \<or> x \<in> set defaultAllowed then Some escapeOnly
      else if x \<in> set defaultAllowedUrl then Some urlChecked
      else None)"
    using href_not_default by (subst (2) us) (auto simp: fold_registerDefault_empty)
  finally show ?thesis .
qed

section \<open>Lemmas on attribute assignment\<close>

lemma setAttribute_listed:
  assumes "allowedAttributes g key = Some config" "allowed config"
  shows "setAttribute lib g e key val =
     store e key
       (if key = ''class'' then fragments e key @ strings_Fields (sanitizeWith lib config val)
        else if key = ''style'' then fragments e key @ [sanitizeWith lib config val]
        else [sanitizeWith lib config val])"
  using assms by (simp add: setAttribute_def lookupConfig_def Let_def)

lemma setAttribute_unlisted:
  assumes "allowedAttributes g key = None"
  shows "setAttribute lib g e key val =
     store e (if prefix ''js-'' key \<or> prefix ''data-'' key then key else ''data-'' @ key)
       [EscapeString val]"
  using assms by (simp add: setAttribute_def lookupConfig_def)

lemma setAttribute_denied:
  assumes "allowedAttributes g key = Some config" "\<not> allowed config"
  shows "setAttribute lib g e key val =
     store e (if prefix ''js-'' key \<or> prefix ''data-'' key then key else ''data-'' @ key)
       [EscapeString val]"
  using assms by (simp add: setAttribute_def lookupConfig_def)

lemma safe_EscapeString: "safeFragment (EscapeString s)"
  using EscapeString_chars[of s] by (auto simp: safeFragment_def)

lemma safe_hash: "safeFragment ''#''"
  by (simp add: safeFragment_def)

lemma safe_urlSanitizeFunc: "safeFragment (urlSanitizeFunc lib s)"
  by (simp add: urlSanitizeFunc_def safe_EscapeString safe_hash split: option.splits)

lemma safe_sanitizeWith: "safeFragment (sanitizeWith lib config val)"
proof (cases "sanitizeFunc config")
  case None
  then show ?thesis by (simp add: sanitizeWith_def safe_EscapeString)
next
  case (Some f)
  then show ?thesis
    by (cases f) (simp_all add: sanitizeWith_def safe_EscapeString safe_urlSanitizeFunc)
qed

lemma safe_Fields: "safeFragment s \<Longrightarrow> f \<in> set (strings_Fields s) \<Longrightarrow> safeFragment f"
  using strings_Fields_bytes[of f s] by (auto simp: safeFragment_def)

lemma safeAttributes_upd:
  assumes "safeAttributes m" "\<forall>f \<in> set fs. safeFragment f"
  shows "safeAttributes (m(k \<mapsto> fs))"
proof -
  have "ran (m(k \<mapsto> fs)) \<subseteq> insert fs (ran m)"
    by (auto simp: ran_def)
  with assms show ?thesis unfolding safeAttributes_def by blast
qed

lemma safe_fragments: "safeAttributes (Attributes e) \<Longrightarrow> f \<in> set (fragments e k) \<Longrightarrow> safeFragment f"
  by (cases "Attributes e k") (auto simp: fragments_def safeAttributes_def ran_def)

lemma safe_store:
  "safeAttributes (Attributes e) \<Longrightarrow> \<forall>f \<in> set fs. safeFragment f \<Longrightarrow>
   safeAttributes (Attributes (store e k fs))"
  by (simp add: store_def safeAttributes_upd)

lemma safe_setAttribute:
  assumes "safeAttributes (Attributes e)"
  shows "safeAttributes (Attributes (setAttribute lib g e key val))"
proof (cases "allowedAttributes g key")
  case None
  show ?thesis
    unfolding setAttribute_unlisted[OF None]
    by (rule safe_store[OF assms]) (simp add: safe_EscapeString)
next
  case (Some config)
  show ?thesis
  proof (cases "allowed config")
    case True
    show ?thesis
      unfolding setAttribute_listed[OF Some True]
      by (rule safe_store[OF assms])
         (auto simp: safe_sanitizeWith intro: safe_fragments[OF assms] safe_Fields[OF safe_sanitizeWith])
  next
    case False
    show ?thesis
      unfolding setAttribute_denied[OF Some False]
      by (rule safe_store[OF assms]) (simp add: safe_EscapeString)
  qed
qed

lemma safe_WithAttrs:
  "safeAttributes (Attributes e) \<Longrightarrow> safeAttributes (Attributes (WithAttrs lib g e kvs))"
  unfolding WithAttrs_def
  by (induction kvs arbitrary: e) (simp_all add: safe_setAttribute)

lemma safe_Join:
  assumes "\<forall>f \<in> set fs. safeFragment f"
  shows "safeFragment (strings_Join fs '' '')"
  using assms strings_Join_bytes[of fs "'' ''"] by (fastforce simp: safeFragment_def)

section \<open>The escaper (C7)\<close>

lemma amp_in_piece:
  assumes "i < length (escapeByte c)" "escapeByte c ! i = CHR ''&''"
  shows "i = 0 \<and> escapeByte c \<in> set entities"
proof -
  consider "escapeByte c \<in> set entities" | "escapeByte c = [c]" "c \<notin> set special"
    using escapeByte_piece[of c] by blast
  then show ?thesis
  proof cases
    case 1
    with assms show ?thesis
      by (auto simp: entities_def less_Suc_eq)
  next
    case 2
    with assms show ?thesis by (simp add: special_def)
  qed
qed

lemma amp_starts_entity:
  "i < length (EscapeString s) \<Longrightarrow> EscapeString s ! i = CHR ''&'' \<Longrightarrow>
   \<exists>ent \<in> set entities. prefix ent (drop i (EscapeString s))"
proof (induction s arbitrary: i)
  case Nil
  then show ?case by (simp add: EscapeString_def)
next
  case (Cons c s)
  have out: "EscapeString (c # s) = escapeByte c @ EscapeString s"
    by (simp add: EscapeString_def)
  show ?case
  proof (cases "i < length (escapeByte c)")
    case True
    with Cons.prems(2) have "escapeByte c ! i = CHR ''&''"
      by (simp add: out nth_append)
    from amp_in_piece[OF True this] have "i = 0" "escapeByte c \<in> set entities"
      by simp_all
    then show ?thesis
      by (auto simp: out intro!: bexI[of _ "escapeByte c"])
  next
    case False
    let ?j = "i - length (escapeByte c)"
    from False Cons.prems have "?j < length (EscapeString s)" "EscapeString s ! ?j = CHR ''&''"
      by (auto simp: out nth_append)
    from Cons.IH[OF this] show ?thesis
      using False by (simp add: out)
  qed
qed

text \<open>
  C7, as amended. The escaper replaces every occurrence of the five bytes
  \<^verbatim>\<open>& ' < > "\<close> by its entity and passes every other byte through; its output has no
  literal \<^verbatim>\<open><\<close>, \<^verbatim>\<open>>\<close>, double quote or single quote, and an ampersand stands in the
  output only as the first byte of one of the five entities.
\<close>

theorem EscapeString_entities:
  "EscapeString [] = [] \<and>
   EscapeString (c # s) =
     (if c = CHR ''&'' then ''&amp;''
      else if c = SQ then ''&#39;''
      else if c = CHR ''<'' then ''&lt;''
      else if c = CHR ''>'' then ''&gt;''
      else if c = DQ then ''&#34;''
      else [c]) @ EscapeString s \<and>
   CHR ''<'' \<notin> set (EscapeString s) \<and> CHR ''>'' \<notin> set (EscapeString s) \<and>
   DQ \<notin> set (EscapeString s) \<and> SQ \<notin> set (EscapeString s) \<and>
   (\<forall>i < length (EscapeString s). EscapeString s ! i = CHR ''&'' \<longrightarrow>
      (\<exists>ent \<in> set entities. prefix ent (drop i (EscapeString s))))"
proof -
  have "EscapeString [] = []"
    by (simp add: EscapeString_def)
  moreover have "EscapeString (c # s) =
     (if c = CHR ''&'' then ''&amp;''
      else if c = SQ then ''&#39;''
      else if c = CHR ''<'' then ''&lt;''
      else if c = CHR ''>'' then ''&gt;''
      else if c = DQ then ''&#34;''
      else [c]) @ EscapeString s"
    by (simp add: EscapeString_def escapeByte_def)
  moreover have "CHR ''<'' \<notin> set (EscapeString s)" "CHR ''>'' \<notin> set (EscapeString s)"
    "DQ \<notin> set (EscapeString s)" "SQ \<notin> set (EscapeString s)"
    using EscapeString_chars[of s] by auto
  ultimately show ?thesis
    using amp_starts_entity[of _ s] by blast
qed

text \<open>The theorem at the input \<^verbatim>\<open>a&<\<close>: both ampersands of the output start an entity.\<close>

theorem EscapeString_entities_witness:
  "EscapeString ''a&<'' = ''a&amp;&lt;'' \<and> prefix ''&amp;'' (drop 1 (EscapeString ''a&<''))
   \<and> prefix ''&lt;'' (drop 6 (EscapeString ''a&<''))"
proof -
  have ev: "EscapeString ''a&<'' = ''a&amp;&lt;''"
    by (simp add: EscapeString_def escapeByte_def)
  have all: "\<forall>i < length (EscapeString ''a&<''). EscapeString ''a&<'' ! i = CHR ''&'' \<longrightarrow>
      (\<exists>ent \<in> set entities. prefix ent (drop i (EscapeString ''a&<'')))"
    using EscapeString_entities[of "CHR ''a''" "''a&<''"] by blast
  have "\<exists>ent \<in> set entities. prefix ent (drop 1 (EscapeString ''a&<''))"
    using all[rule_format, of 1] by (simp add: ev)
  moreover have "\<exists>ent \<in> set entities. prefix ent (drop 6 (EscapeString ''a&<''))"
    using all[rule_format, of 6] by (simp add: ev)
  ultimately show ?thesis
    by (simp add: ev entities_def)
qed

text \<open>
  The claim as it is written also excludes the ampersand from the output. The output for
  \<^verbatim>\<open>&\<close> is \<^verbatim>\<open>&amp;\<close> and the output for \<^verbatim>\<open><\<close> is \<^verbatim>\<open>&lt;\<close>: both hold a literal
  ampersand.
\<close>

theorem EscapeString_ampersand_counterexample:
  "EscapeString ''&'' = ''&amp;'' \<and> CHR ''&'' \<in> set (EscapeString ''&'')
   \<and> EscapeString ''<'' = ''&lt;'' \<and> CHR ''&'' \<in> set (EscapeString ''<'')"
  by (simp add: EscapeString_def escapeByte_def)

section \<open>The URL validator (C2)\<close>

text \<open>
  C2. Applied to any string, the URL sanitiser returns \<^verbatim>\<open>#\<close> when parsing fails, when
  the parsed scheme is \<^verbatim>\<open>javascript\<close>, and when the parsed scheme is empty and the parsed
  path does not start with a slash; in every other case, so for a scheme \<^verbatim>\<open>http\<close> or
  \<^verbatim>\<open>https\<close> and for a rooted path without scheme, it returns the escaped serialisation of
  the parsed URL. This holds for every parser and serialiser.
\<close>

theorem urlSanitizeFunc_cases:
  "(url_Parse lib s = None \<longrightarrow> urlSanitizeFunc lib s = ''#'') \<and>
   (\<forall>u. url_Parse lib s = Some u \<longrightarrow>
      (Scheme u = ''javascript'' \<longrightarrow> urlSanitizeFunc lib s = ''#'') \<and>
      (Scheme u = [] \<and> \<not> prefix ''/'' (Path u) \<longrightarrow> urlSanitizeFunc lib s = ''#'') \<and>
      (Scheme u \<noteq> ''javascript'' \<and> (Scheme u \<noteq> [] \<or> prefix ''/'' (Path u)) \<longrightarrow>
         urlSanitizeFunc lib s = EscapeString (url_String lib u)) \<and>
      (Scheme u = ''http'' \<or> Scheme u = ''https'' \<or> Scheme u = [] \<and> prefix ''/'' (Path u) \<longrightarrow>
         urlSanitizeFunc lib s = EscapeString (url_String lib u)))"
  by (auto simp: urlSanitizeFunc_def)

text \<open>The sample of the library at the inputs of the examples below.\<close>

lemma sample_Parse_bad: "url_Parse sample_url '':bad'' = None"
  by (simp add: sample_url_def sample_Parse_def)

lemma sample_Parse_javascript:
  "url_Parse sample_url ''javascript:alert(1)'' =
     Some \<lparr>Scheme = ''javascript'', Opaque = ''alert(1)'', Host = [], Path = [],
           RawQuery = [], Fragment = []\<rparr>"
  by (simp add: sample_url_def sample_Parse_def)

lemma sample_Parse_relative:
  "url_Parse sample_url ''foo/bar'' =
     Some \<lparr>Scheme = [], Opaque = [], Host = [], Path = ''foo/bar'', RawQuery = [], Fragment = []\<rparr>"
  by (simp add: sample_url_def sample_Parse_def)

lemma sample_Parse_rooted:
  "url_Parse sample_url ''/a/b'' =
     Some \<lparr>Scheme = [], Opaque = [], Host = [], Path = ''/a/b'', RawQuery = [], Fragment = []\<rparr>"
  by (simp add: sample_url_def sample_Parse_def)

lemma sample_Parse_https:
  "url_Parse sample_url ''https://example.com?param=value&another=test'' =
     Some \<lparr>Scheme = ''https'', Opaque = [], Host = ''example.com'', Path = [],
           RawQuery = ''param=value&another=test'', Fragment = []\<rparr>"
  by (simp add: sample_url_def sample_Parse_def)

lemma sample_String_https:
  "EscapeString (url_String sample_url
      \<lparr>Scheme = ''https'', Opaque = [], Host = ''example.com'', Path = [],
       RawQuery = ''param=value&another=test'', Fragment = []\<rparr>)
   = ''https://example.com?param=value&amp;another=test''"
  by (simp add: sample_url_def sample_String_def EscapeString_def escapeByte_def)

lemma sample_String_rooted:
  "EscapeString (url_String sample_url
      \<lparr>Scheme = [], Opaque = [], Host = [], Path = ''/a/b'', RawQuery = [], Fragment = []\<rparr>)
   = ''/a/b''"
  by (simp add: sample_url_def sample_String_def EscapeString_def escapeByte_def)

text \<open>The theorem on the sample: one input for each case.\<close>

theorem urlSanitizeFunc_cases_witness:
  "urlSanitizeFunc sample_url '':bad'' = ''#'' \<and>
   urlSanitizeFunc sample_url ''javascript:alert(1)'' = ''#'' \<and>
   urlSanitizeFunc sample_url ''foo/bar'' = ''#'' \<and>
   urlSanitizeFunc sample_url ''https://example.com?param=value&another=test''
     = ''https://example.com?param=value&amp;another=test'' \<and>
   urlSanitizeFunc sample_url ''/a/b'' = ''/a/b''"
proof -
  have "urlSanitizeFunc sample_url '':bad'' = ''#''"
    using urlSanitizeFunc_cases[of sample_url "'':bad''"] sample_Parse_bad by blast
  moreover have "urlSanitizeFunc sample_url ''javascript:alert(1)'' = ''#''"
    using urlSanitizeFunc_cases[of sample_url "''javascript:alert(1)''"] sample_Parse_javascript
    by simp
  moreover have "urlSanitizeFunc sample_url ''foo/bar'' = ''#''"
    using urlSanitizeFunc_cases[of sample_url "''foo/bar''"] sample_Parse_relative
    by simp
  moreover have "urlSanitizeFunc sample_url ''https://example.com?param=value&another=test''
     = ''https://example.com?param=value&amp;another=test''"
    using urlSanitizeFunc_cases[of sample_url "''https://example.com?param=value&another=test''"]
      sample_Parse_https sample_String_https
    by simp
  moreover have "urlSanitizeFunc sample_url ''/a/b'' = ''/a/b''"
    using urlSanitizeFunc_cases[of sample_url "''/a/b''"] sample_Parse_rooted sample_String_rooted
    by simp
  ultimately show ?thesis by simp
qed

section \<open>Lemmas on serialisation\<close>

lemma rangeOver_empty: "rangeOver Map.empty kvs = (kvs = [])"
  by (auto simp: rangeOver_def Map.graph_def)

lemma rangeOver_single: "rangeOver [k \<mapsto> v] kvs = (kvs = [(k, v)])"
proof
  assume r: "rangeOver [k \<mapsto> v] kvs"
  then have s: "set kvs = {(k, v)}" and d: "distinct (map fst kvs)"
    by (auto simp: rangeOver_def Map.graph_def split: if_splits)
  show "kvs = [(k, v)]"
  proof (cases kvs)
    case Nil
    with s show ?thesis by simp
  next
    case (Cons a as)
    with s have a: "a = (k, v)" by auto
    have "as = []"
    proof (cases as)
      case Nil
      then show ?thesis .
    next
      case (Cons b bs)
      with s \<open>kvs = a # as\<close> have "b = (k, v)" by auto
      with a d \<open>kvs = a # as\<close> Cons show ?thesis by simp
    qed
    with a Cons show ?thesis by simp
  qed
next
  assume "kvs = [(k, v)]"
  then show "rangeOver [k \<mapsto> v] kvs"
    by (auto simp: rangeOver_def Map.graph_def split: if_splits)
qed

lemma distinct_filter_one:
  "distinct xs \<Longrightarrow> k \<in> set xs \<Longrightarrow> length (filter (\<lambda>x. x = k) xs) = 1"
proof (induction xs)
  case Nil
  then show ?case by simp
next
  case (Cons a xs)
  show ?case
  proof (cases "a = k")
    case True
    with Cons.prems have "filter (\<lambda>x. x = k) xs = []"
      by (auto simp: filter_empty_conv)
    with True show ?thesis by simp
  next
    case False
    with Cons show ?thesis by simp
  qed
qed

lemma rangeOver_once:
  assumes "rangeOver m kvs" "m k = Some v"
  shows "(k, v) \<in> set kvs \<and> length (filter (\<lambda>kv. fst kv = k) kvs) = 1"
proof -
  from assms have d: "distinct (map fst kvs)" and i: "(k, v) \<in> set kvs"
    by (auto simp: rangeOver_def Map.graph_def)
  from i have "k \<in> set (map fst kvs)" by force
  with d have "length (filter (\<lambda>x. x = k) (map fst kvs)) = 1"
    by (rule distinct_filter_one)
  then show ?thesis using i by (simp add: filter_map comp_def)
qed

lemma generateChildren_Nil: "generateChildren [] out = (out = [])"
  by (subst generateChildren.simps) auto

lemma generateChildren_Cons:
  "generateChildren (c # cs) out =
     (\<exists>s t. generateHtml c s \<and> generateChildren cs t \<and> out = s @ t)"
  by (subst generateChildren.simps) auto

lemma generateHtml_root:
  "name (Tag e) = [] \<Longrightarrow> generateHtml e out = generateChildren (Children e) out"
  by (subst generateHtml.simps) auto

lemma generateHtml_void:
  "name (Tag e) \<noteq> [] \<Longrightarrow> isVoid (Tag e) \<Longrightarrow>
   generateHtml e out =
     (\<exists>kvs. rangeOver (Attributes e) kvs \<and>
        out = ''<'' @ name (Tag e) @ concat (map writeAttribute kvs) @ '' />'')"
  by (subst generateHtml.simps) auto

lemma generateHtml_normal:
  "name (Tag e) \<noteq> [] \<Longrightarrow> \<not> isVoid (Tag e) \<Longrightarrow>
   generateHtml e out =
     (\<exists>kvs cs. rangeOver (Attributes e) kvs \<and> generateChildren (Children e) cs \<and>
        out = ''<'' @ name (Tag e) @ concat (map writeAttribute kvs) @ ''>'' @ Content e @ cs @
              ''</'' @ name (Tag e) @ ''>'')"
  by (subst generateHtml.simps) auto

section \<open>Keys outside the policy table (C6)\<close>

lemma url_not_prefixed:
  "k \<in> set defaultAllowedUrl \<Longrightarrow> \<not> prefix ''js-'' k \<and> \<not> prefix ''data-'' k"
  by (auto simp: defaultAllowedUrl_def defaultAllowedHtmx_def)

lemma New_entry_cases:
  "allowedAttributes (New custom) k = None \<or>
   allowedAttributes (New custom) k = Some escapeOnly \<or>
   allowedAttributes (New custom) k = Some urlChecked \<and> k \<in> set defaultAllowedUrl"
  by (cases custom) (simp_all add: New_nil_table New_table)

lemma setAttribute_prefixed:
  assumes "prefix ''js-'' key \<or> prefix ''data-'' key"
  shows "setAttribute lib (New custom) e key val = store e key [EscapeString val]"
proof -
  from assms have nc: "key \<noteq> ''class''" "key \<noteq> ''style''"
    by auto
  from New_entry_cases[of custom key] show ?thesis
  proof (elim disjE conjE)
    assume "allowedAttributes (New custom) key = None"
    with assms show ?thesis by (simp add: setAttribute_unlisted)
  next
    assume "allowedAttributes (New custom) key = Some escapeOnly"
    then show ?thesis
      using nc by (simp add: setAttribute_listed sanitizeWith_def)
  next
    assume "key \<in> set defaultAllowedUrl"
    with assms url_not_prefixed[of key] show ?thesis by blast
  qed
qed

text \<open>
  C6. A key that is not in the policy table and starts neither with \<^verbatim>\<open>js-\<close> nor with
  \<^verbatim>\<open>data-\<close> is stored under \<^verbatim>\<open>data-\<close> followed by the key, as the one fragment that
  escaping the value gives; with one of the two prefixes it is stored in the same way under
  the key itself. With a generator of \<^verbatim>\<open>New\<close> a prefixed key is stored so whether or not
  the table lists it.
\<close>

theorem unlisted_attribute_demoted:
  "(allowedAttributes g key = None \<and> \<not> prefix ''js-'' key \<and> \<not> prefix ''data-'' key \<longrightarrow>
      setAttribute lib g e key val =
        Element (Tag e) ((Attributes e)(''data-'' @ key \<mapsto> [EscapeString val]))
          (Children e) (Content e)) \<and>
   (allowedAttributes g key = None \<and> (prefix ''js-'' key \<or> prefix ''data-'' key) \<longrightarrow>
      setAttribute lib g e key val =
        Element (Tag e) ((Attributes e)(key \<mapsto> [EscapeString val])) (Children e) (Content e)) \<and>
   (prefix ''js-'' key \<or> prefix ''data-'' key \<longrightarrow>
      setAttribute lib (New custom) e key val =
        Element (Tag e) ((Attributes e)(key \<mapsto> [EscapeString val])) (Children e) (Content e))"
  using setAttribute_prefixed[of key lib custom e val]
  by (simp add: setAttribute_unlisted store_def)

text \<open>
  The theorem on a \<^verbatim>\<open>div\<close>: \<^verbatim>\<open>Attr("onclick", "x")\<close> stores \<^verbatim>\<open>data-onclick\<close> and no
  \<^verbatim>\<open>onclick\<close>, and the element serialises to \<^verbatim>\<open><div data-onclick="x"></div>\<close>; a
  \<^verbatim>\<open>js-\<close> key and a \<^verbatim>\<open>data-\<close> key keep their names.
\<close>

theorem unlisted_attribute_demoted_witness:
  "Attributes (setAttribute sample_url (New None) (Element (NormalTag ''div'') Map.empty [] [])
      ''onclick'' ''x'') = [''data-onclick'' \<mapsto> [''x'']] \<and>
   Attributes (setAttribute sample_url (New None) (Element (NormalTag ''div'') Map.empty [] [])
      ''onclick'' ''x'') ''onclick'' = None \<and>
   {out. generateHtml (setAttribute sample_url (New None)
      (Element (NormalTag ''div'') Map.empty [] []) ''onclick'' ''x'') out}
     = {''<div data-onclick=\"x\"></div>''} \<and>
   Attributes (setAttribute sample_url (New None) (Element (NormalTag ''div'') Map.empty [] [])
      ''js-hook'' ''x'') = [''js-hook'' \<mapsto> [''x'']] \<and>
   Attributes (setAttribute sample_url (New (Some [\<lparr>Name = ''data-id''\<rparr>]))
      (Element (NormalTag ''div'') Map.empty [] [])
      ''data-id'' ''a<b'') = [''data-id'' \<mapsto> [''a&lt;b'']]"
proof -
  let ?e = "Element (NormalTag ''div'') Map.empty [] []"
  have u1: "allowedAttributes (New None) ''onclick'' = None"
    and u2: "allowedAttributes (New None) ''js-hook'' = None"
    by (simp_all add: New_nil_table defaultAllowed_def)
  have x: "EscapeString ''x'' = ''x''" and ab: "EscapeString ''a<b'' = ''a&lt;b''"
    by (simp_all add: EscapeString_def escapeByte_def)
  have a: "setAttribute sample_url (New None) ?e ''onclick'' ''x''
      = Element (NormalTag ''div'') [''data-onclick'' \<mapsto> [''x'']] [] []"
    using unlisted_attribute_demoted[of "New None" "''onclick''" sample_url ?e "''x''"] u1
    by (simp add: x)
  have b: "setAttribute sample_url (New None) ?e ''js-hook'' ''x''
      = Element (NormalTag ''div'') [''js-hook'' \<mapsto> [''x'']] [] []"
    using unlisted_attribute_demoted[of "New None" "''js-hook''" sample_url ?e "''x''"] u2
    by (simp add: x)
  have c: "setAttribute sample_url (New (Some [\<lparr>Name = ''data-id''\<rparr>])) ?e ''data-id'' ''a<b''
      = Element (NormalTag ''div'') [''data-id'' \<mapsto> [''a&lt;b'']] [] []"
    using unlisted_attribute_demoted[of _ "''data-id''" sample_url ?e "''a<b''"
        "Some [\<lparr>Name = ''data-id''\<rparr>]"]
    by (simp add: ab)
  have out: "{out. generateHtml (Element (NormalTag ''div'') [''data-onclick'' \<mapsto> [''x'']] [] []) out}
     = {''<div data-onclick=\"x\"></div>''}"
    by (simp add: generateHtml_normal rangeOver_single generateChildren_Nil writeAttribute_def)
  show ?thesis
    by (simp add: a b c out)
qed

section \<open>Replace mode (C9)\<close>

text \<open>
  C9. For an allowed key other than \<^verbatim>\<open>class\<close> and \<^verbatim>\<open>style\<close> the last assignment wins:
  after \<^verbatim>\<open>Attr(k, v1)\<close> and \<^verbatim>\<open>Attr(k, v2)\<close> the fragments of \<^verbatim>\<open>k\<close> are the one
  sanitised \<^verbatim>\<open>v2\<close>, and the element is the one that \<^verbatim>\<open>Attr(k, v2)\<close> alone gives.
\<close>

theorem replace_last_write_wins:
  "allowedAttributes g k = Some config \<Longrightarrow> allowed config \<Longrightarrow>
   k \<noteq> ''class'' \<Longrightarrow> k \<noteq> ''style'' \<Longrightarrow>
   Attributes (Attr lib g (Attr lib g e k v1) k v2) k = Some [sanitizeWith lib config v2] \<and>
   Attr lib g (Attr lib g e k v1) k v2 = Attr lib g e k v2"
  by (simp add: Attr_def setAttribute_listed store_def)

text \<open>The theorem on the example of the source's comment: \<^verbatim>\<open>id\<close> set to \<^verbatim>\<open>btn1\<close>, then \<^verbatim>\<open>btn2\<close>.\<close>

theorem replace_last_write_wins_witness:
  "Attributes (Attr sample_url (New None)
      (Attr sample_url (New None) (Element (NormalTag ''div'') Map.empty [] []) ''id'' ''btn1'')
      ''id'' ''btn2'') ''id'' = Some [''btn2''] \<and>
   Attr sample_url (New None)
      (Attr sample_url (New None) (Element (NormalTag ''div'') Map.empty [] []) ''id'' ''btn1'')
      ''id'' ''btn2''
   = Attr sample_url (New None) (Element (NormalTag ''div'') Map.empty [] []) ''id'' ''btn2''"
proof -
  have l: "allowedAttributes (New None) ''id'' = Some escapeOnly"
    by (simp add: New_nil_table defaultAllowed_def)
  have v: "sanitizeWith sample_url escapeOnly ''btn2'' = ''btn2''"
    by (simp add: sanitizeWith_def EscapeString_def escapeByte_def)
  have r: "Attributes (Attr sample_url (New None)
      (Attr sample_url (New None) (Element (NormalTag ''div'') Map.empty [] []) ''id'' ''btn1'')
      ''id'' ''btn2'') ''id'' = Some [sanitizeWith sample_url escapeOnly ''btn2''] \<and>
   Attr sample_url (New None)
      (Attr sample_url (New None) (Element (NormalTag ''div'') Map.empty [] []) ''id'' ''btn1'')
      ''id'' ''btn2''
   = Attr sample_url (New None) (Element (NormalTag ''div'') Map.empty [] []) ''id'' ''btn2''"
    by (rule replace_last_write_wins[OF l]) simp_all
  show ?thesis
    by (rule r[unfolded v])
qed

section \<open>The invariant of stored fragments (C10)\<close>

text \<open>
  C10. No fragment in the attribute map of an element holds a double quote or a
  \<^verbatim>\<open><\<close>: the root of a new generator and a new child have no fragments, and
  \<^verbatim>\<open>setAttribute\<close>, \<^verbatim>\<open>Attr\<close> and \<^verbatim>\<open>WithAttrs\<close> keep the property under every key and
  value, as do the operations that leave the map alone. The value written between the quotes
  of a serialised attribute, the fragments joined by spaces, has neither byte as well.
\<close>

theorem stored_fragments_safe:
  "safeAttributes (Attributes (Root (New custom))) \<and>
   safeAttributes (Attributes (snd (Add e tag))) \<and>
   safeAttributes (Attributes (snd (AddVoid e tag))) \<and>
   (safeAttributes (Attributes e) \<longrightarrow>
      safeAttributes (Attributes (setAttribute lib (New custom) e key val)) \<and>
      safeAttributes (Attributes (Attr lib (New custom) e key val)) \<and>
      safeAttributes (Attributes (WithAttrs lib (New custom) e attrs)) \<and>
      safeAttributes (Attributes (fst (Add e tag))) \<and>
      safeAttributes (Attributes (fst (AddVoid e tag))) \<and>
      safeAttributes (Attributes (AddString e content)) \<and>
      (\<forall>k v. Attributes e k = Some v \<longrightarrow>
         (\<forall>f \<in> set v. DQ \<notin> set f \<and> CHR ''<'' \<notin> set f) \<and>
         DQ \<notin> set (strings_Join v '' '') \<and> CHR ''<'' \<notin> set (strings_Join v '' '')))"
proof -
  have new: "safeAttributes (Attributes (Root (New custom)))"
    "safeAttributes (Attributes (snd (Add e tag)))"
    "safeAttributes (Attributes (snd (AddVoid e tag)))"
    by (simp_all add: New_def Add_def AddVoid_def Let_def safeAttributes_def)
  have kept: "safeAttributes (Attributes (fst (Add e tag)))"
    "safeAttributes (Attributes (fst (AddVoid e tag)))"
    "safeAttributes (Attributes (AddString e content))"
    if "safeAttributes (Attributes e)"
    using that by (simp_all add: Add_def AddVoid_def AddString_def Let_def)
  have read: "(\<forall>f \<in> set v. DQ \<notin> set f \<and> CHR ''<'' \<notin> set f) \<and>
      DQ \<notin> set (strings_Join v '' '') \<and> CHR ''<'' \<notin> set (strings_Join v '' '')"
    if s: "safeAttributes (Attributes e)" and v: "Attributes e k = Some v" for k v
  proof -
    from s v have all: "\<forall>f \<in> set v. safeFragment f"
      by (auto simp: safeAttributes_def ran_def)
    from safe_Join[OF all] all show ?thesis
      by (simp add: safeFragment_def)
  qed
  from new kept read show ?thesis
    by (simp add: safe_setAttribute safe_WithAttrs Attr_def)
qed

text \<open>
  The theorem on a new \<^verbatim>\<open>a\<close> element: a \<^verbatim>\<open>title\<close> that tries to close the quote and
  open a tag, and a \<^verbatim>\<open>WithAttrs\<close> with a \<^verbatim>\<open>javascript\<close> URL and a class.
\<close>

theorem stored_fragments_safe_witness:
  "safeAttributes (Attributes (setAttribute sample_url (New None)
      (Element (NormalTag ''a'') Map.empty [] []) ''title'' ''\"><script>'')) \<and>
   Attributes (setAttribute sample_url (New None)
      (Element (NormalTag ''a'') Map.empty [] []) ''title'' ''\"><script>'') ''title''
     = Some [''&#34;&gt;&lt;script&gt;''] \<and>
   safeAttributes (Attributes (WithAttrs sample_url (New None)
      (Element (NormalTag ''a'') Map.empty [] [])
      [\<lparr>Key = ''href'', Value = ''javascript:alert(1)''\<rparr>, \<lparr>Key = ''class'', Value = ''a <b''\<rparr>]))"
proof -
  let ?e = "Element (NormalTag ''a'') Map.empty [] []"
  have s0: "safeAttributes (Attributes ?e)"
    by (simp add: safeAttributes_def)
  have l: "allowedAttributes (New None) ''title'' = Some escapeOnly"
    by (simp add: New_nil_table defaultAllowed_def)
  have "safeAttributes (Attributes (setAttribute sample_url (New None) ?e ''title'' ''\"><script>''))"
    using stored_fragments_safe[of None ?e "[]" sample_url "''title''" "''\"><script>''" "[]" "[]"] s0
    by blast
  moreover have "safeAttributes (Attributes (WithAttrs sample_url (New None) ?e
      [\<lparr>Key = ''href'', Value = ''javascript:alert(1)''\<rparr>, \<lparr>Key = ''class'', Value = ''a <b''\<rparr>]))"
    using stored_fragments_safe[of None ?e "[]" sample_url "[]" "[]"
        "[\<lparr>Key = ''href'', Value = ''javascript:alert(1)''\<rparr>, \<lparr>Key = ''class'', Value = ''a <b''\<rparr>]" "[]"] s0
    by blast
  moreover have "Attributes (setAttribute sample_url (New None) ?e ''title'' ''\"><script>'') ''title''
     = Some [''&#34;&gt;&lt;script&gt;'']"
    by (simp add: setAttribute_listed[OF l] store_def sanitizeWith_def EscapeString_def escapeByte_def)
  ultimately show ?thesis by blast
qed

section \<open>URL attributes (C1)\<close>

lemma url_not_accumulating: "k \<in> set defaultAllowedUrl \<Longrightarrow> k \<noteq> ''class'' \<and> k \<noteq> ''style''"
  by (auto simp: defaultAllowedUrl_def defaultAllowedHtmx_def)

lemma accumulating_default: "''class'' \<in> set defaultAllowed \<and> ''style'' \<in> set defaultAllowed"
  by (simp add: defaultAllowed_def)

lemma setAttribute_url:
  assumes "k \<in> set defaultAllowedUrl" "k \<notin> Name ` set custom"
  shows "setAttribute lib (New (Some custom)) e k val = store e k [urlSanitizeFunc lib val]"
proof -
  from assms url_not_default[of k] have "allowedAttributes (New (Some custom)) k = Some urlChecked"
    by (simp add: New_table)
  then show ?thesis
    using url_not_accumulating[OF assms(1)]
    by (simp add: setAttribute_listed sanitizeWith_def)
qed

text \<open>
  Where \<^verbatim>\<open>New\<close> registers the URL attribute, that is for a custom list that is not
  \<^verbatim>\<open>nil\<close> and does not name it, \<^verbatim>\<open>setAttribute\<close> stores the one fragment that the URL
  sanitiser gives, which is \<^verbatim>\<open>#\<close> for a value whose parsed scheme is \<^verbatim>\<open>javascript\<close>.
\<close>

lemma setAttribute_url_sanitized:
  "k \<in> set defaultAllowedUrl \<Longrightarrow> k \<notin> Name ` set custom \<Longrightarrow>
   setAttribute lib (New (Some custom)) e k val =
     Element (Tag e) ((Attributes e)(k \<mapsto> [urlSanitizeFunc lib val])) (Children e) (Content e) \<and>
   (\<forall>u. url_Parse lib val = Some u \<and> Scheme u = ''javascript'' \<longrightarrow>
      Attributes (setAttribute lib (New (Some custom)) e k val) k = Some [''#''])"
  by (auto simp: setAttribute_url store_def urlSanitizeFunc_def)

lemma url_unregistered_nil: "k \<in> set defaultAllowedUrl \<Longrightarrow> allowedAttributes (New None) k = None"
  using url_not_default[of k] by (simp add: New_nil_table)

text \<open>
  C1. The claim asks that \<^verbatim>\<open>setAttribute\<close> apply the URL sanitiser to every name of the URL
  set for every generator of \<^verbatim>\<open>New\<close>, the one of \<^verbatim>\<open>New(nil)\<close> included. \<^verbatim>\<open>New\<close> assigns
  the URL sanitiser inside the test \<^verbatim>\<open>allowedAttributesCustom != nil\<close>, so the table of
  \<^verbatim>\<open>New(nil)\<close> has no entry for any name of the URL set. On a new \<^verbatim>\<open>a\<close> element,
  \<^verbatim>\<open>Attr("href", "javascript:alert(1)")\<close> then stores the value, escaped only, under
  \<^verbatim>\<open>data-href\<close>, whatever the parser is; the only output is
  \<^verbatim>\<open><a data-href="javascript:alert(1)"></a>\<close> and no \<^verbatim>\<open>href\<close> is stored. The parsed scheme of
  the value is \<^verbatim>\<open>javascript\<close>, for which the URL sanitiser gives \<^verbatim>\<open>#\<close>.
\<close>

theorem url_attribute_unregistered:
  "list_all (\<lambda>k. allowedAttributes (New None) k = None) defaultAllowedUrl \<and>
   setAttribute lib (New None) (Element (NormalTag ''a'') Map.empty [] []) ''href''
      ''javascript:alert(1)''
     = Element (NormalTag ''a'') [''data-href'' \<mapsto> [''javascript:alert(1)'']] [] [] \<and>
   {out. generateHtml (setAttribute lib (New None) (Element (NormalTag ''a'') Map.empty [] [])
      ''href'' ''javascript:alert(1)'') out}
     = {''<a data-href=\"javascript:alert(1)\"></a>''} \<and>
   url_Parse sample_url ''javascript:alert(1)'' =
     Some \<lparr>Scheme = ''javascript'', Opaque = ''alert(1)'', Host = [], Path = [],
           RawQuery = [], Fragment = []\<rparr> \<and>
   urlSanitizeFunc sample_url ''javascript:alert(1)'' = ''#'' \<and>
   Attributes (setAttribute sample_url (New None) (Element (NormalTag ''a'') Map.empty [] [])
      ''href'' ''javascript:alert(1)'') ''href'' = None"
proof -
  have all: "list_all (\<lambda>k. allowedAttributes (New None) k = None) defaultAllowedUrl"
    by (simp add: list_all_iff url_unregistered_nil)
  have n: "allowedAttributes (New None) ''href'' = None"
    by (rule url_unregistered_nil) (simp add: defaultAllowedUrl_def)
  have v: "EscapeString ''javascript:alert(1)'' = ''javascript:alert(1)''"
    by (simp add: EscapeString_def escapeByte_def)
  have s: "setAttribute l (New None) (Element (NormalTag ''a'') Map.empty [] []) ''href''
      ''javascript:alert(1)''
     = Element (NormalTag ''a'') [''data-href'' \<mapsto> [''javascript:alert(1)'']] [] []" for l :: "'b net_url"
    by (simp add: setAttribute_unlisted[OF n] store_def v)
  have out: "{out. generateHtml
        (Element (NormalTag ''a'') [''data-href'' \<mapsto> [''javascript:alert(1)'']] [] []) out}
     = {''<a data-href=\"javascript:alert(1)\"></a>''}"
    by (simp add: generateHtml_normal rangeOver_single generateChildren_Nil writeAttribute_def)
  have u: "urlSanitizeFunc sample_url ''javascript:alert(1)'' = ''#''"
    by (simp add: urlSanitizeFunc_def sample_Parse_javascript)
  show ?thesis
    using all out u sample_Parse_javascript by (simp add: s)
qed

section \<open>Custom attributes (C3)\<close>

text \<open>
  C3, as amended. For a custom list that is not \<^verbatim>\<open>nil\<close>: every custom name has the
  escape-only entry in the table that \<^verbatim>\<open>New\<close> builds; a default escape-only attribute has
  the entry it has without custom names; a URL attribute that the list does not name has the
  URL entry it has without custom names; and a custom name that is no default attribute is
  assigned in Replace mode with the escaped value.
\<close>

theorem custom_registration:
  "(k \<in> Name ` set custom \<longrightarrow>
      allowedAttributes (New (Some custom)) k =
        Some \<lparr>allowed = True, sanitizeFunc = Some FnEscapeString\<rparr>) \<and>
   (k \<in> set defaultAllowed \<longrightarrow>
      allowedAttributes (New (Some custom)) k =
        Some \<lparr>allowed = True, sanitizeFunc = Some FnEscapeString\<rparr> \<and>
      allowedAttributes (New (Some custom)) k = allowedAttributes (New (Some [])) k) \<and>
   (k \<in> set defaultAllowedUrl \<and> k \<notin> Name ` set custom \<longrightarrow>
      allowedAttributes (New (Some custom)) k =
        Some \<lparr>allowed = True, sanitizeFunc = Some FnUrlSanitize\<rparr> \<and>
      allowedAttributes (New (Some custom)) k = allowedAttributes (New (Some [])) k) \<and>
   (k \<in> Name ` set custom \<and> k \<notin> set defaultAllowed \<longrightarrow>
      setAttribute lib (New (Some custom)) e k val =
        Element (Tag e) ((Attributes e)(k \<mapsto> [EscapeString val])) (Children e) (Content e))"
proof -
  have "setAttribute lib (New (Some custom)) e k val =
        Element (Tag e) ((Attributes e)(k \<mapsto> [EscapeString val])) (Children e) (Content e)"
    if c: "k \<in> Name ` set custom" and d: "k \<notin> set defaultAllowed"
  proof -
    from c have l: "allowedAttributes (New (Some custom)) k = Some escapeOnly"
      by (simp add: New_table)
    from d accumulating_default have "k \<noteq> ''class''" "k \<noteq> ''style''"
      by auto
    then show ?thesis
      by (simp add: setAttribute_listed[OF l] store_def sanitizeWith_def)
  qed
  then show ?thesis
    using url_not_default[of k] by (auto simp: New_table)
qed

text \<open>The theorem for the custom list \<^verbatim>\<open>x-foo\<close>, \<^verbatim>\<open>id\<close>.\<close>

theorem custom_registration_witness:
  "allowedAttributes (New (Some [\<lparr>Name = ''x-foo''\<rparr>, \<lparr>Name = ''id''\<rparr>])) ''x-foo''
     = Some \<lparr>allowed = True, sanitizeFunc = Some FnEscapeString\<rparr> \<and>
   allowedAttributes (New (Some [\<lparr>Name = ''x-foo''\<rparr>, \<lparr>Name = ''id''\<rparr>])) ''id''
     = Some \<lparr>allowed = True, sanitizeFunc = Some FnEscapeString\<rparr> \<and>
   allowedAttributes (New (Some [\<lparr>Name = ''x-foo''\<rparr>, \<lparr>Name = ''id''\<rparr>])) ''src''
     = Some \<lparr>allowed = True, sanitizeFunc = Some FnUrlSanitize\<rparr> \<and>
   setAttribute sample_url (New (Some [\<lparr>Name = ''x-foo''\<rparr>, \<lparr>Name = ''id''\<rparr>]))
      (Element (NormalTag ''p'') [''x-foo'' \<mapsto> [''old'']] [] []) ''x-foo'' ''a&b''
     = Element (NormalTag ''p'') [''x-foo'' \<mapsto> [''a&amp;b'']] [] []"
proof -
  let ?cs = "[\<lparr>Name = ''x-foo''\<rparr>, \<lparr>Name = ''id''\<rparr>]"
  have m: "''x-foo'' \<in> Name ` set ?cs" "''id'' \<in> set defaultAllowed"
    "''src'' \<in> set defaultAllowedUrl \<and> ''src'' \<notin> Name ` set ?cs"
    "''x-foo'' \<notin> set defaultAllowed"
    by (simp_all add: defaultAllowed_def defaultAllowedUrl_def)
  have e: "EscapeString ''a&b'' = ''a&amp;b''"
    by (simp add: EscapeString_def escapeByte_def)
  have "allowedAttributes (New (Some ?cs)) ''x-foo''
     = Some \<lparr>allowed = True, sanitizeFunc = Some FnEscapeString\<rparr>"
    using custom_registration[of "''x-foo''" ?cs] m(1) by blast
  moreover have "allowedAttributes (New (Some ?cs)) ''id''
     = Some \<lparr>allowed = True, sanitizeFunc = Some FnEscapeString\<rparr>"
    using custom_registration[of "''id''" ?cs] m(2) by blast
  moreover have "allowedAttributes (New (Some ?cs)) ''src''
     = Some \<lparr>allowed = True, sanitizeFunc = Some FnUrlSanitize\<rparr>"
    using custom_registration[of "''src''" ?cs] m(3) by blast
  moreover have "setAttribute sample_url (New (Some ?cs))
      (Element (NormalTag ''p'') [''x-foo'' \<mapsto> [''old'']] [] []) ''x-foo'' ''a&b''
     = Element (NormalTag ''p'') [''x-foo'' \<mapsto> [''a&amp;b'']] [] []"
    using custom_registration[of "''x-foo''" ?cs sample_url
        "Element (NormalTag ''p'') [''x-foo'' \<mapsto> [''old'']] [] []" "''a&b''"] m(1) m(4)
    by (simp add: e)
  ultimately show ?thesis by blast
qed

text \<open>
  The claim as it is written keeps the URL entry of a URL attribute that the custom list
  names. With the empty list \<^verbatim>\<open>href\<close> has the URL sanitiser; with the list that names
  \<^verbatim>\<open>href\<close> it has the escaper.
\<close>

theorem custom_registration_counterexample:
  "allowedAttributes (New (Some [])) ''href''
     = Some \<lparr>allowed = True, sanitizeFunc = Some FnUrlSanitize\<rparr> \<and>
   allowedAttributes (New (Some [\<lparr>Name = ''href''\<rparr>])) ''href''
     = Some \<lparr>allowed = True, sanitizeFunc = Some FnEscapeString\<rparr> \<and>
   allowedAttributes (New (Some [\<lparr>Name = ''href''\<rparr>])) ''href''
     \<noteq> allowedAttributes (New (Some [])) ''href''"
  by (simp add: New_table defaultAllowed_def defaultAllowedUrl_def)

section \<open>The serialiser has an output\<close>

lemma rangeOver_exists:
  assumes "finite (dom m)"
  shows "\<exists>kvs. rangeOver m kvs"
proof -
  from assms have "finite (Map.graph m)"
    by (simp add: finite_graph_iff_finite_dom)
  then obtain kvs where kvs: "set kvs = Map.graph m" "distinct kvs"
    using finite_distinct_list by blast
  have "inj_on fst (set kvs)"
    unfolding kvs(1) by (auto simp: inj_on_def Map.graph_def)
  with kvs(2) have "distinct (map fst kvs)"
    by (simp add: distinct_map)
  with kvs(1) show ?thesis
    by (auto simp: rangeOver_def)
qed

lemma generateChildren_exists:
  "(\<And>c. c \<in> set cs \<Longrightarrow> \<exists>out. generateHtml c out) \<Longrightarrow> \<exists>out. generateChildren cs out"
proof (induction cs)
  case Nil
  show ?case by (simp add: generateChildren_Nil)
next
  case (Cons c cs)
  from Cons.prems obtain s where "generateHtml c s" by auto
  moreover from Cons obtain t where "generateChildren cs t" by auto
  ultimately show ?case by (auto simp: generateChildren_Cons)
qed

lemma generateHtml_exists: "finiteAttributes e \<Longrightarrow> \<exists>out. generateHtml e out"
proof (induction e)
  case (Element tag attrs children content)
  let ?e = "Element tag attrs children content"
  have "\<exists>out. generateHtml c out" if "c \<in> set children" for c
    using Element that by auto
  then obtain cs where cs: "generateChildren children cs"
    using generateChildren_exists[of children] by blast
  from Element.prems obtain kvs where kvs: "rangeOver attrs kvs"
    using rangeOver_exists[of attrs] by auto
  show ?case
  proof (cases "name tag = []")
    case True
    with cs show ?thesis by (auto simp: generateHtml_root)
  next
    case False
    with cs kvs show ?thesis
      by (cases "isVoid tag") (auto simp: generateHtml_void generateHtml_normal)
  qed
qed

lemma finiteAttributes_sel:
  "finiteAttributes e = (finite (dom (Attributes e)) \<and> (\<forall>c \<in> set (Children e). finiteAttributes c))"
  by (cases e) simp

lemma finiteAttributes_store: "finiteAttributes e \<Longrightarrow> finiteAttributes (store e k v)"
  by (cases e) (simp add: store_def)

lemma finiteAttributes_setAttribute:
  "finiteAttributes e \<Longrightarrow> finiteAttributes (setAttribute lib g e k v)"
  by (simp add: setAttribute_def lookupConfig_def Let_def finiteAttributes_store split: option.splits)

section \<open>Class tokens (C5)\<close>

lemma class_listed: "allowedAttributes (New custom) ''class'' = Some escapeOnly"
  by (cases custom) (simp_all add: New_nil_table New_table accumulating_default)

lemma style_listed: "allowedAttributes (New custom) ''style'' = Some escapeOnly"
  by (cases custom) (simp_all add: New_nil_table New_table accumulating_default)

lemma setAttribute_class:
  "setAttribute lib (New custom) e ''class'' val =
     store e ''class'' (fragments e ''class'' @ strings_Fields (EscapeString val))"
  by (simp add: setAttribute_listed[OF class_listed] sanitizeWith_def)

lemma setAttribute_style:
  "setAttribute lib (New custom) e ''style'' val =
     store e ''style'' (fragments e ''style'' @ [EscapeString val])"
  by (simp add: setAttribute_listed[OF style_listed] sanitizeWith_def)

lemma fragments_store: "fragments (store e k v) k = v"
  by (simp add: fragments_def store_def)

lemma store_store: "store (store e k a) k b = store e k b"
  by (simp add: store_def)

lemma Fields_a: "strings_Fields (EscapeString ''a'') = [''a'']"
  by (simp add: strings_Fields_def flush_def asciiSpace_def EscapeString_def escapeByte_def)

lemma Fields_b_c: "strings_Fields (EscapeString ''b c'') = [''b'', ''c'']"
  by (simp add: strings_Fields_def flush_def asciiSpace_def EscapeString_def escapeByte_def)

lemma rangeOver_split:
  assumes "rangeOver m kvs" "m k = Some v"
  shows "\<exists>pre post. kvs = pre @ (k, v) # post \<and> k \<notin> fst ` set (pre @ post)"
proof -
  from assms have d: "distinct (map fst kvs)" and i: "(k, v) \<in> set kvs"
    by (auto simp: rangeOver_def Map.graph_def)
  from i obtain pre post where kvs: "kvs = pre @ (k, v) # post"
    by (auto simp: in_set_conv_decomp)
  with d have "k \<notin> fst ` set (pre @ post)"
    by auto
  with kvs show ?thesis by blast
qed

lemma generateHtml_tail:
  assumes "name (Tag e) \<noteq> []"
  shows "generateHtml e out \<longleftrightarrow>
     (\<exists>kvs tail. rangeOver (Attributes e) kvs \<and>
        (isVoid (Tag e) \<and> tail = '' />'' \<or>
         \<not> isVoid (Tag e) \<and>
           (\<exists>cs. generateChildren (Children e) cs \<and>
              tail = ''>'' @ Content e @ cs @ ''</'' @ name (Tag e) @ ''>'')) \<and>
        out = ''<'' @ name (Tag e) @ concat (map writeAttribute kvs) @ tail)"
proof (cases "isVoid (Tag e)")
  case True
  with assms show ?thesis by (auto simp: generateHtml_void)
next
  case False
  with assms show ?thesis by (auto simp: generateHtml_normal)
qed

text \<open>
  C5, as amended. For an element with a tag name that is not empty: \<^verbatim>\<open>Attr("class", v)\<close>
  appends the white-space separated tokens of the escaped value to the fragments the element
  has; after \<^verbatim>\<open>Attr("class", "a")\<close> and \<^verbatim>\<open>Attr("class", "b c")\<close> the fragments are the
  earlier ones followed by \<^verbatim>\<open>a\<close>, \<^verbatim>\<open>b\<close>, \<^verbatim>\<open>c\<close>. The outputs of the serialiser are then
  exactly these: the open tag, the other attributes of the element in some order with the one
  \<^verbatim>\<open>class\<close> attribute among them, whose value is the fragments joined by single spaces
  (\<^verbatim>\<open>a b c\<close> for an element without earlier class fragments), and the rest of the element.
  No other entry written has the name \<^verbatim>\<open>class\<close>, and there is an output when the attribute
  maps of the tree are finite.
\<close>

theorem class_tokens_accumulate:
  "name (Tag e) \<noteq> [] \<Longrightarrow>
   Attributes (Attr lib (New custom) e ''class'' val)
     = (Attributes e)(''class'' \<mapsto> fragments e ''class'' @ strings_Fields (EscapeString val)) \<and>
   Attr lib (New custom) (Attr lib (New custom) e ''class'' ''a'') ''class'' ''b c''
     = Element (Tag e)
         ((Attributes e)(''class'' \<mapsto> fragments e ''class'' @ [''a'', ''b'', ''c'']))
         (Children e) (Content e) \<and>
   (generateHtml
        (Attr lib (New custom) (Attr lib (New custom) e ''class'' ''a'') ''class'' ''b c'') out \<longleftrightarrow>
      (\<exists>pre post tail.
         rangeOver ((Attributes e)(''class'' \<mapsto> fragments e ''class'' @ [''a'', ''b'', ''c'']))
           (pre @ (''class'', fragments e ''class'' @ [''a'', ''b'', ''c'']) # post) \<and>
         ''class'' \<notin> fst ` set (pre @ post) \<and>
         (isVoid (Tag e) \<and> tail = '' />'' \<or>
          \<not> isVoid (Tag e) \<and>
            (\<exists>cs. generateChildren (Children e) cs \<and>
               tail = ''>'' @ Content e @ cs @ ''</'' @ name (Tag e) @ ''>'')) \<and>
         out = ''<'' @ name (Tag e) @ concat (map writeAttribute pre) @
               '' class=\"'' @ strings_Join (fragments e ''class'' @ [''a'', ''b'', ''c'']) '' '' @ ''\"'' @
               concat (map writeAttribute post) @ tail)) \<and>
   (Attributes e ''class'' = None \<longrightarrow>
      strings_Join (fragments e ''class'' @ [''a'', ''b'', ''c'']) '' '' = ''a b c'') \<and>
   (finiteAttributes e \<longrightarrow>
      (\<exists>out'. generateHtml
         (Attr lib (New custom) (Attr lib (New custom) e ''class'' ''a'') ''class'' ''b c'') out'))"
proof -
  assume n: "name (Tag e) \<noteq> []"
  let ?e2 = "Attr lib (New custom) (Attr lib (New custom) e ''class'' ''a'') ''class'' ''b c''"
  let ?fs = "fragments e ''class'' @ [''a'', ''b'', ''c'']"
  let ?m = "(Attributes e)(''class'' \<mapsto> ?fs)"
  let ?tl = "\<lambda>tail. isVoid (Tag e) \<and> tail = '' />'' \<or>
          \<not> isVoid (Tag e) \<and>
            (\<exists>cs. generateChildren (Children e) cs \<and>
               tail = ''>'' @ Content e @ cs @ ''</'' @ name (Tag e) @ ''>'')"
  have e2s: "?e2 = store e ''class'' ?fs"
    by (simp add: Attr_def setAttribute_class fragments_store Fields_a Fields_b_c store_store)
  then have e2: "?e2 = Element (Tag e) ?m (Children e) (Content e)"
    by (simp add: store_def)
  have one: "Attributes (Attr lib (New custom) e ''class'' val)
     = (Attributes e)(''class'' \<mapsto> fragments e ''class'' @ strings_Fields (EscapeString val))"
    by (simp add: Attr_def setAttribute_class store_def)
  have wr: "writeAttribute (''class'', ?fs) = '' class=\"'' @ strings_Join ?fs '' '' @ ''\"''"
    by (simp add: writeAttribute_def)
  have gen: "generateHtml ?e2 out \<longleftrightarrow>
      (\<exists>kvs tail. rangeOver ?m kvs \<and> ?tl tail \<and>
         out = ''<'' @ name (Tag e) @ concat (map writeAttribute kvs) @ tail)"
    using generateHtml_tail[of "Element (Tag e) ?m (Children e) (Content e)" out] n
    unfolding e2 by simp
  have ser: "generateHtml ?e2 out \<longleftrightarrow>
      (\<exists>pre post tail. rangeOver ?m (pre @ (''class'', ?fs) # post) \<and>
         ''class'' \<notin> fst ` set (pre @ post) \<and> ?tl tail \<and>
         out = ''<'' @ name (Tag e) @ concat (map writeAttribute pre) @
               '' class=\"'' @ strings_Join ?fs '' '' @ ''\"'' @
               concat (map writeAttribute post) @ tail)"
    (is "_ \<longleftrightarrow> ?R")
  proof
    assume "generateHtml ?e2 out"
    with gen obtain kvs tail where r: "rangeOver ?m kvs" and t: "?tl tail"
      and o: "out = ''<'' @ name (Tag e) @ concat (map writeAttribute kvs) @ tail"
      by blast
    from rangeOver_split[OF r, of "''class''" ?fs] obtain pre post
      where k: "kvs = pre @ (''class'', ?fs) # post" "''class'' \<notin> fst ` set (pre @ post)"
      by auto
    from o have "out = ''<'' @ name (Tag e) @ concat (map writeAttribute pre) @
               '' class=\"'' @ strings_Join ?fs '' '' @ ''\"'' @
               concat (map writeAttribute post) @ tail"
      by (simp add: k(1) wr)
    with r t k show ?R by blast
  next
    assume ?R
    then obtain pre post tail where r: "rangeOver ?m (pre @ (''class'', ?fs) # post)"
      and t: "?tl tail"
      and o: "out = ''<'' @ name (Tag e) @ concat (map writeAttribute pre) @
               '' class=\"'' @ strings_Join ?fs '' '' @ ''\"'' @
               concat (map writeAttribute post) @ tail"
      by blast
    from o have "out = ''<'' @ name (Tag e) @
        concat (map writeAttribute (pre @ (''class'', ?fs) # post)) @ tail"
      by (simp add: wr)
    with r t gen show "generateHtml ?e2 out" by blast
  qed
  have fresh: "strings_Join ?fs '' '' = ''a b c''" if "Attributes e ''class'' = None"
    using that by (simp add: fragments_def)
  have ex: "\<exists>out'. generateHtml ?e2 out'" if "finiteAttributes e"
    using that by (intro generateHtml_exists) (simp add: e2s finiteAttributes_store)
  from one e2 ser fresh ex show ?thesis by blast
qed

text \<open>
  The theorem on a new \<^verbatim>\<open>div\<close> and a new \<^verbatim>\<open>br\<close>: the fragments are \<^verbatim>\<open>a\<close>, \<^verbatim>\<open>b\<close>,
  \<^verbatim>\<open>c\<close> and the only outputs are \<^verbatim>\<open><div class="a b c"></div>\<close> and
  \<^verbatim>\<open><br class="a b c" />\<close>.
\<close>

theorem class_tokens_accumulate_witness:
  "Attributes (Attr sample_url (New None)
      (Attr sample_url (New None) (Element (NormalTag ''div'') Map.empty [] []) ''class'' ''a'')
      ''class'' ''b c'') ''class'' = Some [''a'', ''b'', ''c''] \<and>
   {out. generateHtml (Attr sample_url (New None)
      (Attr sample_url (New None) (Element (NormalTag ''div'') Map.empty [] []) ''class'' ''a'')
      ''class'' ''b c'') out} = {''<div class=\"a b c\"></div>''} \<and>
   {out. generateHtml (Attr sample_url (New None)
      (Attr sample_url (New None) (Element (VoidTag ''br'') Map.empty [] []) ''class'' ''a'')
      ''class'' ''b c'') out} = {''<br class=\"a b c\" />''}"
proof -
  let ?d = "Element (NormalTag ''div'') Map.empty [] []"
  let ?b = "Element (VoidTag ''br'') Map.empty [] []"
  have f: "fragments ?d ''class'' = []" "fragments ?b ''class'' = []"
    by (simp_all add: fragments_def)
  have single: "rangeOver [''class'' \<mapsto> v] (pre @ (''class'', v) # post) \<longleftrightarrow> pre = [] \<and> post = []"
    for v pre post
    by (auto simp: rangeOver_single append_eq_Cons_conv)
  have n: "name (Tag ?d) \<noteq> []" "name (Tag ?b) \<noteq> []"
    by simp_all
  note d = class_tokens_accumulate[OF n(1), of sample_url None]
  note b = class_tokens_accumulate[OF n(2), of sample_url None]
  have "Attributes (Attr sample_url (New None) (Attr sample_url (New None) ?d ''class'' ''a'')
      ''class'' ''b c'') ''class'' = Some [''a'', ''b'', ''c'']"
    unfolding d[THEN conjunct2, THEN conjunct1] by (simp add: f)
  moreover have "generateHtml (Attr sample_url (New None) (Attr sample_url (New None) ?d ''class'' ''a'')
      ''class'' ''b c'') out \<longleftrightarrow> out = ''<div class=\"a b c\"></div>''" for out
    unfolding d[THEN conjunct2, THEN conjunct2, THEN conjunct1]
    by (simp add: f single generateChildren_Nil)
  moreover have "generateHtml (Attr sample_url (New None) (Attr sample_url (New None) ?b ''class'' ''a'')
      ''class'' ''b c'') out \<longleftrightarrow> out = ''<br class=\"a b c\" />''" for out
    unfolding b[THEN conjunct2, THEN conjunct2, THEN conjunct1]
    by (simp add: f single)
  ultimately show ?thesis by blast
qed

text \<open>
  The claim as it is written speaks of every element. The root of a generator has the empty
  tag name, for which the serialiser writes the children and no tag: after the two calls on
  the root the only output is the empty string. On an element that has the class \<^verbatim>\<open>x\<close>
  already, the two calls give the fragments \<^verbatim>\<open>x\<close>, \<^verbatim>\<open>a\<close>, \<^verbatim>\<open>b\<close>, \<^verbatim>\<open>c\<close>.
\<close>

theorem class_tokens_counterexample:
  "{out. generateHtml (Attr sample_url (New None)
      (Attr sample_url (New None) (Root (New None)) ''class'' ''a'') ''class'' ''b c'') out} = {[]} \<and>
   Attributes (Attr sample_url (New None)
      (Attr sample_url (New None) (Element (NormalTag ''div'') [''class'' \<mapsto> [''x'']] [] [])
         ''class'' ''a'')
      ''class'' ''b c'') ''class'' = Some [''x'', ''a'', ''b'', ''c'']"
proof -
  have root: "Root (New None) = Element (NormalTag []) Map.empty [] []"
    by (simp add: New_def)
  let ?r = "Attr sample_url (New None)
      (Attr sample_url (New None) (Root (New None)) ''class'' ''a'') ''class'' ''b c''"
  have "?r = store (Root (New None)) ''class'' (fragments (Root (New None)) ''class'' @ [''a'', ''b'', ''c''])"
    by (simp add: Attr_def setAttribute_class fragments_store Fields_a Fields_b_c store_store)
  then have "name (Tag ?r) = []" "Children ?r = []"
    by (simp_all add: store_def root)
  then have "{out. generateHtml ?r out} = {[]}"
    by (simp add: generateHtml_root generateChildren_Nil)
  moreover have "Attributes (Attr sample_url (New None)
      (Attr sample_url (New None) (Element (NormalTag ''div'') [''class'' \<mapsto> [''x'']] [] [])
         ''class'' ''a'')
      ''class'' ''b c'') ''class'' = Some [''x'', ''a'', ''b'', ''c'']"
    by (simp add: Attr_def setAttribute_class fragments_store Fields_a Fields_b_c store_store)
       (simp add: store_def fragments_def)
  ultimately show ?thesis by blast
qed

section \<open>Style declarations (C4)\<close>

text \<open>
  C4. The claim asks for the two style declarations joined with a semicolon, as the comments
  on \<^verbatim>\<open>Attr\<close> and \<^verbatim>\<open>WithAttrs\<close> promise. The serialiser joins the fragments of every
  attribute with one space: on a new \<^verbatim>\<open>div\<close>, for every generator of \<^verbatim>\<open>New\<close>, the calls
  \<^verbatim>\<open>Attr("style", "color:red")\<close> and \<^verbatim>\<open>Attr("style", "font-weight:bold")\<close> store the two
  fragments and the only output is \<^verbatim>\<open><div style="color:red font-weight:bold"></div>\<close>.
\<close>

theorem style_joined_by_space:
  "Attributes (Attr lib (New custom)
      (Attr lib (New custom) (Element (NormalTag ''div'') Map.empty [] []) ''style'' ''color:red'')
      ''style'' ''font-weight:bold'') = [''style'' \<mapsto> [''color:red'', ''font-weight:bold'']] \<and>
   {out. generateHtml (Attr lib (New custom)
      (Attr lib (New custom) (Element (NormalTag ''div'') Map.empty [] []) ''style'' ''color:red'')
      ''style'' ''font-weight:bold'') out}
     = {''<div style=\"color:red font-weight:bold\"></div>''}"
proof -
  have v: "EscapeString ''color:red'' = ''color:red''"
    "EscapeString ''font-weight:bold'' = ''font-weight:bold''"
    by (simp_all add: EscapeString_def escapeByte_def)
  have e: "Attr lib (New custom)
      (Attr lib (New custom) (Element (NormalTag ''div'') Map.empty [] []) ''style'' ''color:red'')
      ''style'' ''font-weight:bold''
    = Element (NormalTag ''div'') [''style'' \<mapsto> [''color:red'', ''font-weight:bold'']] [] []"
    by (simp add: Attr_def setAttribute_style fragments_store store_store v)
       (simp add: store_def fragments_def)
  show ?thesis
    unfolding e
    by (simp add: generateHtml_normal rangeOver_single generateChildren_Nil writeAttribute_def)
qed

section \<open>Void elements (C8)\<close>

text \<open>
  C8, as amended. For an element whose tag is a void tag with a name that is not empty, the
  outputs of the serialiser are the open tag with the attributes followed by \<^verbatim>\<open> />\<close> and
  nothing more: they are the outputs of the same element without children and text, so text or
  children attached with \<^verbatim>\<open>AddString\<close>, \<^verbatim>\<open>Add\<close> or \<^verbatim>\<open>AddVoid\<close> change nothing, and there
  is an output when the attribute map is finite.
\<close>

theorem void_element_serialised:
  "isVoid (Tag e) \<Longrightarrow> name (Tag e) \<noteq> [] \<Longrightarrow>
   (generateHtml e out \<longleftrightarrow>
      (\<exists>kvs. rangeOver (Attributes e) kvs \<and>
         out = ''<'' @ name (Tag e) @ concat (map writeAttribute kvs) @ '' />'')) \<and>
   (generateHtml e out \<longleftrightarrow> generateHtml (Element (Tag e) (Attributes e) [] []) out) \<and>
   (generateHtml (AddString e content) out \<longleftrightarrow> generateHtml e out) \<and>
   (generateHtml (fst (Add e tag)) out \<longleftrightarrow> generateHtml e out) \<and>
   (generateHtml (fst (AddVoid e tag)) out \<longleftrightarrow> generateHtml e out) \<and>
   (finite (dom (Attributes e)) \<longrightarrow> (\<exists>out'. generateHtml e out'))"
proof -
  assume v: "isVoid (Tag e)" and n: "name (Tag e) \<noteq> []"
  let ?rhs = "\<exists>kvs. rangeOver (Attributes e) kvs \<and>
         out = ''<'' @ name (Tag e) @ concat (map writeAttribute kvs) @ '' />''"
  have same: "generateHtml e' out \<longleftrightarrow> ?rhs"
    if "Tag e' = Tag e" "Attributes e' = Attributes e" for e'
  proof -
    from that v n have "isVoid (Tag e')" "name (Tag e') \<noteq> []"
      by simp_all
    from generateHtml_void[OF this(2) this(1), of out] that show ?thesis
      by simp
  qed
  have a: "generateHtml e out \<longleftrightarrow> ?rhs"
    by (rule same) simp_all
  have b: "generateHtml (Element (Tag e) (Attributes e) [] []) out \<longleftrightarrow> ?rhs"
    by (rule same) simp_all
  have c: "generateHtml (AddString e content) out \<longleftrightarrow> ?rhs"
    by (rule same) (simp_all add: AddString_def)
  have d: "generateHtml (fst (Add e tag)) out \<longleftrightarrow> ?rhs"
    by (rule same) (simp_all add: Add_def Let_def)
  have f: "generateHtml (fst (AddVoid e tag)) out \<longleftrightarrow> ?rhs"
    by (rule same) (simp_all add: AddVoid_def Let_def)
  have ex: "\<exists>out'. generateHtml e out'" if "finite (dom (Attributes e))"
    using rangeOver_exists[OF that] v n by (auto simp: generateHtml_void)
  from a b c d f ex show ?thesis
    by blast
qed

text \<open>
  The theorem on the \<^verbatim>\<open>br\<close> of the example program, with a child and a text attached.
\<close>

theorem void_element_serialised_witness:
  "{out. generateHtml (AddString (fst (Add
      (Element (VoidTag ''br'') [''class'' \<mapsto> [''clearfix'', ''secondclass'']] [] []) ''p'')) ''hi'') out}
     = {''<br class=\"clearfix secondclass\" />''}"
proof -
  let ?e = "Element (VoidTag ''br'') [''class'' \<mapsto> [''clearfix'', ''secondclass'']] [] []"
  have v: "isVoid (Tag ?e)" and n: "name (Tag ?e) \<noteq> []"
    by simp_all
  have t: "isVoid (Tag (fst (Add ?e ''p'')))" "name (Tag (fst (Add ?e ''p''))) \<noteq> []"
    by (simp_all add: Add_def Let_def)
  have "generateHtml (AddString (fst (Add ?e ''p'')) ''hi'') out
          \<longleftrightarrow> out = ''<br class=\"clearfix secondclass\" />''" for out
    using void_element_serialised[OF t, of out "''hi''"] void_element_serialised[OF v n, of out _ "''p''"]
    by (simp add: rangeOver_single writeAttribute_def)
  then show ?thesis by blast
qed

text \<open>
  The claim as it is written speaks of every void tag. \<^verbatim>\<open>AddVoid(VoidTag(""))\<close> gives an
  element with the empty tag name, which the serialiser treats as it treats the root: with a
  child \<^verbatim>\<open>p\<close> attached, the only output is \<^verbatim>\<open><p></p>\<close>, the child and no \<^verbatim>\<open> />\<close>.
\<close>

theorem void_element_counterexample:
  "isVoid (Tag (fst (Add (snd (AddVoid (Root (New None)) [])) ''p''))) \<and>
   {out. generateHtml (fst (Add (snd (AddVoid (Root (New None)) [])) ''p'')) out} = {''<p></p>''}"
proof -
  have e: "fst (Add (snd (AddVoid (Root (New None)) [])) ''p'')
      = Element (VoidTag []) Map.empty [Element (NormalTag ''p'') Map.empty [] []] []"
    by (simp add: Add_def AddVoid_def Let_def)
  show ?thesis
    unfolding e
    by (simp add: generateHtml_root generateChildren_Cons generateChildren_Nil generateHtml_normal
        rangeOver_empty)
qed

end
